theory Spec2Isabelle
  imports Complex_Main "HOL-Library.Log_Nat" "HOL-Library.Signed_Division" "HOL-Library.Multiset"
begin

section \<open>The time library as the tracker uses it\<close>

text \<open>
  A \<open>time.Time\<close> is the instant (nanoseconds since the Unix epoch) together with the
  offset east of UTC, in seconds, that its location has at that instant. \<open>Before\<close> and
  \<open>Sub\<close> read the instant only; \<open>Date\<close> reads the civil date in the value's own
  location. Monotonic clock readings are taken to agree with the wall clock.
\<close>

record Time =
  unixNano :: int
  zoneOffset :: int

definition Before :: "Time \<Rightarrow> Time \<Rightarrow> bool" where
  "Before t u = (unixNano t < unixNano u)"

definition minDuration :: int where
  "minDuration = - (2 ^ 63)"

definition maxDuration :: int where
  "maxDuration = 2 ^ 63 - 1"

text \<open>\<open>t.Sub(u)\<close> is a Duration, an int64 count of nanoseconds; out of range it saturates.\<close>

definition Sub :: "Time \<Rightarrow> Time \<Rightarrow> int" where
  "Sub t u = (let d = unixNano t - unixNano u
              in if minDuration \<le> d \<and> d \<le> maxDuration then d
                 else if Before t u then minDuration else maxDuration)"

subsection \<open>float64 arithmetic\<close>

text \<open>
  A finite float64 is a rational. \<open>float64 q\<close> rounds \<open>q\<close> to the nearest value with a
  53-bit significand, ties to even, as every IEEE operation does with its exact result.
  Gradual underflow is the lower bound on the exponent; overflow to infinity needs a
  magnitude of \<open>2 ^ 1024\<close>, which no quotient of two int64 values reaches.
\<close>

definition pow2 :: "int \<Rightarrow> rat" where
  "pow2 k = (if 0 \<le> k then 2 ^ nat k else 1 / 2 ^ nat (- k))"

definition ilog2 :: "rat \<Rightarrow> int" where
  "ilog2 q = (let (a, b) = quotient_of q; k = bitlen a - bitlen b
              in if pow2 k \<le> q then k else k - 1)"

definition roundEven :: "rat \<Rightarrow> int" where
  "roundEven q = (let n = \<lfloor>q\<rfloor>; r = q - of_int n
                  in if r < 1 / 2 then n else if 1 / 2 < r then n + 1
                     else if even n then n else n + 1)"

definition float64 :: "rat \<Rightarrow> rat" where
  "float64 q = (if q = 0 then 0
                else let e = max (ilog2 \<bar>q\<bar> - 52) (- 1074)
                     in sgn q * of_int (roundEven (\<bar>q\<bar> / pow2 e)) * pow2 e)"

text \<open>
  \<open>Duration.Hours\<close>: \<open>hour := d / Hour; nsec := d % Hour;
  return float64(hour) + float64(nsec)/(60*60*1e9)\<close>. Go's integer division truncates
  towards zero and the remainder has the sign of the dividend.
\<close>

definition Hour :: int where
  "Hour = 3600000000000"

definition Hours :: "int \<Rightarrow> rat" where
  "Hours d = (let hour = d sdiv Hour; nsec = d smod Hour
              in float64 (float64 (of_int hour) + float64 (float64 (of_int nsec) / 3600000000000)))"

text \<open>The conversion \<open>int(x)\<close> of a float drops the fraction.\<close>

definition truncInt :: "rat \<Rightarrow> int" where
  "truncInt x = (if 0 \<le> x then \<lfloor>x\<rfloor> else \<lceil>x\<rceil>)"

text \<open>\<open>int(now.Sub(hbt.LastDone).Hours() / 24)\<close>, the expression of Track and PrintSummary.\<close>

definition daysSince :: "Time \<Rightarrow> Time \<Rightarrow> int" where
  "daysSince t u = truncInt (float64 (Hours (Sub t u) / 24))"

subsection \<open>Calendar dates\<close>

text \<open>The proleptic Gregorian date of a day number counted from 1970-01-01.\<close>

definition civil :: "int \<Rightarrow> int \<times> int \<times> int" where
  "civil z0 = (let z = z0 + 719468;
                   era = z div 146097;
                   doe = z mod 146097;
                   yoe = (doe - doe div 1460 + doe div 36524 - doe div 146096) div 365;
                   doy = doe - (365 * yoe + yoe div 4 - yoe div 100);
                   mp = (5 * doy + 2) div 153;
                   d = doy - (153 * mp + 2) div 5 + 1;
                   m = (if mp < 10 then mp + 3 else mp - 9);
                   y = yoe + era * 400
               in (if m \<le> 2 then y + 1 else y, m, d))"

definition Date :: "Time \<Rightarrow> int \<times> int \<times> int" where
  "Date t = civil ((unixNano t div 1000000000 + zoneOffset t) div 86400)"

definition sameDate :: "Time \<Rightarrow> Time \<Rightarrow> bool" where
  "sameDate t1 t2 = (case Date t1 of (t1Year, t1Month, t1Day) \<Rightarrow>
                      case Date t2 of (t2Year, t2Month, t2Day) \<Rightarrow>
                        t2Year = t1Year \<and> t2Month = t1Month \<and> t2Day = t1Day)"

section \<open>Habits and the store\<close>

record Habit =
  Name :: string
  CurrentStreak :: int
  LastDone :: Time

text \<open>
  The store maps a key to a \<open>*Habit\<close>. The model keeps the Habit each key points to:
  every key owns its record and none holds a nil pointer, as it is with the records that
  Track creates. \<open>CurrentStreak\<close> is a Go \<open>int\<close>, here of 64 bits: its values lie from
  \<open>- 2 ^ 63\<close> to \<open>2 ^ 63 - 1\<close> and arithmetic on it wraps around, which \<open>wrapInt\<close>
  writes out.
\<close>

definition wrapInt :: "int \<Rightarrow> int" where
  "wrapInt x = (x + 2 ^ 63) mod 2 ^ 64 - 2 ^ 63"

record store =
  path :: string
  data :: "string \<rightharpoonup> Habit"

text \<open>The zero \<open>Habit{}\<close>: its time is the zero Time, midnight UTC of January 1 of year 1.\<close>

definition zeroTime :: Time where
  "zeroTime = \<lparr>unixNano = - 62135596800000000000, zoneOffset = 0\<rparr>"

definition zeroHabit :: Habit where
  "zeroHabit = \<lparr>Name = [], CurrentStreak = 0, LastDone = zeroTime\<rparr>"

definition Get :: "store \<Rightarrow> string \<Rightarrow> Habit \<times> bool" where
  "Get s key = (case data s key of
                  None \<Rightarrow> (zeroHabit, False)
                | Some h \<Rightarrow> (h, True))"

definition Set :: "store \<Rightarrow> string \<Rightarrow> Habit \<Rightarrow> store" where
  "Set s key hb = s\<lparr>data := (data s)(key \<mapsto> hb)\<rparr>"

definition Delete :: "store \<Rightarrow> string \<Rightarrow> store" where
  "Delete s key = s\<lparr>data := (data s)(key := None)\<rparr>"

definition All :: "store \<Rightarrow> (string \<rightharpoonup> Habit)" where
  "All s = data s"

subsection \<open>Files\<close>

text \<open>
  What \<open>os.Open\<close>, \<open>os.Create\<close> and the gob codec do to the file system. A file holds
  either the gob stream of a mapping or bytes that do not decode to one (an empty file is
  such). The codec is lossless: decoding a stream gives the mapping that was encoded.
  Of the encoder's failures the model has the rejected write; a zone offset that the
  binary form of a Time cannot hold and a nil \<open>*Habit\<close> are outside it.
  \<open>createErr\<close> is the error that creating a new file at a path meets (a missing or
  read-only directory), \<open>writeFails\<close> says that the device rejects writes. The empty
  path names no file: opening or creating it fails with "no such file or directory".
\<close>

datatype oserror = ErrNotExist | ErrPermission

datatype bytes = Gob "string \<rightharpoonup> Habit" | NotGob

record osfile =
  content :: bytes
  readable :: bool
  writable :: bool

record fsys =
  files :: "string \<rightharpoonup> osfile"
  createErr :: "string \<rightharpoonup> oserror"
  writeFails :: bool

definition os_Open :: "fsys \<Rightarrow> string \<Rightarrow> oserror + bytes" where
  "os_Open fs p = (if p = [] then Inl ErrNotExist
                   else case files fs p of
                          None \<Rightarrow> Inl ErrNotExist
                        | Some f \<Rightarrow> if readable f then Inr (content f) else Inl ErrPermission)"

text \<open>\<open>os.Create\<close> opens for reading and writing, creates the file if need be, truncates it.\<close>

definition os_Create :: "fsys \<Rightarrow> string \<Rightarrow> oserror + fsys" where
  "os_Create fs p = (if p = [] then Inl ErrNotExist
                     else case files fs p of
                            None \<Rightarrow> (case createErr fs p of
                                       Some e \<Rightarrow> Inl e
                                     | None \<Rightarrow> Inr (fs\<lparr>files := (files fs)(p \<mapsto>
                                                \<lparr>content = NotGob, readable = True, writable = True\<rparr>)\<rparr>))
                          | Some f \<Rightarrow> if readable f \<and> writable f
                                      then Inr (fs\<lparr>files := (files fs)(p \<mapsto> f\<lparr>content := NotGob\<rparr>)\<rparr>)
                                      else Inl ErrPermission)"

definition gob_Encode :: "fsys \<Rightarrow> string \<Rightarrow> (string \<rightharpoonup> Habit) \<Rightarrow> bool \<times> fsys" where
  "gob_Encode fs p m = (if writeFails fs then (False, fs)
                        else case files fs p of
                               None \<Rightarrow> (False, fs)
                             | Some f \<Rightarrow> (True, fs\<lparr>files := (files fs)(p \<mapsto> f\<lparr>content := Gob m\<rparr>)\<rparr>))"

definition gob_Decode :: "bytes \<Rightarrow> (string \<rightharpoonup> Habit) option" where
  "gob_Decode b = (case b of Gob m \<Rightarrow> Some m | NotGob \<Rightarrow> None)"

subsection \<open>Errors\<close>

datatype error =
    OutOfOrder string Time Time
  | CreateError string oserror
  | EncodeError string
  | OpenError string oserror
  | DecodeError
  | NilOutput
  | NilStore

subsection \<open>Save and OpenStore\<close>

definition Save :: "store \<Rightarrow> fsys \<Rightarrow> error option \<times> fsys" where
  "Save s fs = (case os_Create fs (path s) of
                  Inl e \<Rightarrow> (Some (CreateError (path s) e), fs)
                | Inr fs1 \<Rightarrow> (case gob_Encode fs1 (path s) (data s) of
                               (False, fs2) \<Rightarrow> (Some (EncodeError (path s)), fs2)
                             | (True, fs2) \<Rightarrow> (None, fs2)))"

definition OpenStore :: "fsys \<Rightarrow> string \<Rightarrow> error + store" where
  "OpenStore fs p = (let s = \<lparr>path = p, data = Map.empty\<rparr>
                     in case os_Open fs p of
                          Inl e \<Rightarrow> if e = ErrNotExist then Inr s else Inl (OpenError p e)
                        | Inr b \<Rightarrow> (case gob_Decode b of
                                     None \<Rightarrow> Inl DecodeError
                                   | Some m \<Rightarrow> Inr (s\<lparr>data := m\<rparr>)))"

section \<open>The tracker\<close>

text \<open>
  The output is an \<open>io.Writer\<close>; each \<open>Fprintf\<close> or \<open>Fprintln\<close> is one write, and an
  operation returns the writes it made in order. \<open>Now\<close> is the package's clock seam: every
  operation calls it once, and the model receives the value as its first argument.
\<close>

datatype writer = Stdout | Writer nat

record Tracker =
  outputw :: writer
  store :: store

text \<open>
  The functional options are closures over their argument; they are kept as data and run
  by \<open>applyOpt\<close>. A nil writer or store is \<open>None\<close>.
\<close>

datatype opt = WithOutput "writer option" | WithStore "store option"

fun applyOpt :: "opt \<Rightarrow> Tracker \<Rightarrow> error + Tracker" where
  "applyOpt (WithOutput w) t = (case w of None \<Rightarrow> Inl NilOutput | Some out \<Rightarrow> Inr (t\<lparr>outputw := out\<rparr>))"
| "applyOpt (WithStore st) t = (case st of None \<Rightarrow> Inl NilStore | Some s \<Rightarrow> Inr (t\<lparr>store := s\<rparr>))"

fun applyOpts :: "opt list \<Rightarrow> Tracker \<Rightarrow> error + Tracker" where
  "applyOpts [] t = Inr t"
| "applyOpts (opt # opts) t = (case applyOpt opt t of Inl e \<Rightarrow> Inl e | Inr t1 \<Rightarrow> applyOpts opts t1)"

definition NewTracker :: "fsys \<Rightarrow> opt list \<Rightarrow> error + Tracker" where
  "NewTracker fs opts = (case OpenStore fs ''habit.store'' of
                           Inl e \<Rightarrow> Inl e
                         | Inr s \<Rightarrow> applyOpts opts \<lparr>outputw = Stdout, store = s\<rparr>)"

subsection \<open>Formatting\<close>

definition sq :: string where
  "sq = [CHR 0x27]"

definition nl :: string where
  "nl = [CHR 0x0A]"

fun showNat :: "nat \<Rightarrow> string" where
  "showNat n = (if n < 10 then [''0123456789'' ! n]
                else showNat (n div 10) @ [''0123456789'' ! (n mod 10)])"

declare showNat.simps [simp del]

text \<open>The verb \<open>%d\<close>.\<close>

definition showInt :: "int \<Rightarrow> string" where
  "showInt i = (if i < 0 then ''-'' @ showNat (nat (- i)) else showNat (nat i))"

definition newHabitMsg :: "string \<Rightarrow> string" where
  "newHabitMsg hbtName = ''Congratulations on starting your new habit '' @ sq @ hbtName @ sq
     @ ''! Don't forget to do it again.'' @ nl"

definition sameDayMsg :: "string \<Rightarrow> string" where
  "sameDayMsg hbtName = ''Way to go practicing your habit '' @ sq @ hbtName @ sq
     @ '' more than once today!'' @ nl"

definition resetMsg :: "string \<Rightarrow> int \<Rightarrow> string \<Rightarrow> string" where
  "resetMsg hbtName n dayOutput = ''You last did the habit '' @ sq @ hbtName @ sq @ '' ''
     @ showInt n @ '' '' @ dayOutput
     @ '' ago, so you're starting a new streak today. Good luck!'' @ nl"

definition extendMsg :: "string \<Rightarrow> int \<Rightarrow> string \<Rightarrow> string" where
  "extendMsg hbtName n dayOutput = ''Nice work: you've done the habit '' @ sq @ hbtName @ sq
     @ '' for '' @ showInt n @ '' '' @ dayOutput @ '' in a row now.'' @ nl"

definition noHabitsMsg :: string where
  "noHabitsMsg = ''You're not currently tracking any habits.'' @ nl"

definition inactiveMsg :: "int \<Rightarrow> string \<Rightarrow> string \<Rightarrow> string" where
  "inactiveMsg n dayOutput hbtName = ''It's been '' @ showInt n @ '' '' @ dayOutput
     @ '' since you did '' @ sq @ hbtName @ sq @ ''. Stay positive and get back on it!'' @ nl"

definition streakMsg :: "int \<Rightarrow> string \<Rightarrow> string" where
  "streakMsg n hbtName = ''You are currently on a '' @ showInt n @ ''-day streak for ''
     @ sq @ hbtName @ sq @ ''. Keep it going!'' @ nl"

subsection \<open>Track\<close>

text \<open>
  The tracker and its store are reached through pointers, so a call returns them as it
  leaves them, together with the file system, the error (\<open>None\<close> is nil) and the writes.
\<close>

record outcome =
  failure :: "error option"
  tracker :: Tracker
  disk :: fsys
  written :: "string list"

definition Track :: "Time \<Rightarrow> Tracker \<Rightarrow> fsys \<Rightarrow> string \<Rightarrow> outcome" where
  "Track now t fs hbtName =
     (case data (store t) hbtName of
        None \<Rightarrow>
          (let s1 = Set (store t) hbtName \<lparr>Name = hbtName, CurrentStreak = 1, LastDone = now\<rparr>
           in case Save s1 fs of
                (Some e, fs1) \<Rightarrow>
                  \<lparr>failure = Some e, tracker = t\<lparr>store := s1\<rparr>, disk = fs1, written = []\<rparr>
              | (None, fs1) \<Rightarrow>
                  \<lparr>failure = None, tracker = t\<lparr>store := s1\<rparr>, disk = fs1,
                   written = [newHabitMsg hbtName]\<rparr>)
      | Some hbt \<Rightarrow>
          (let n = daysSince now (LastDone hbt);
               dayOutput = (if n = 1 then ''day'' else ''days'')
           in if Before now (LastDone hbt)
              then \<lparr>failure = Some (OutOfOrder hbtName now (LastDone hbt)), tracker = t,
                    disk = fs, written = []\<rparr>
              else
                (let (hbt1, w) =
                       (if sameDate now (LastDone hbt) then (hbt, sameDayMsg hbtName)
                        else if 0 < n
                        then (hbt\<lparr>CurrentStreak := 1\<rparr>, resetMsg hbtName n dayOutput)
                        else (hbt\<lparr>CurrentStreak := wrapInt (CurrentStreak hbt + 1)\<rparr>,
                              extendMsg hbtName (wrapInt (CurrentStreak hbt + 1)) dayOutput));
                     s1 = (store t)\<lparr>data := (data (store t))(hbtName \<mapsto> hbt1\<lparr>LastDone := now\<rparr>)\<rparr>
                 in case Save s1 fs of
                      (e, fs1) \<Rightarrow>
                        \<lparr>failure = e, tracker = t\<lparr>store := s1\<rparr>, disk = fs1, written = [w]\<rparr>)))"

subsection \<open>PrintSummary\<close>

text \<open>
  \<open>range\<close> visits the keys of a Go map in an order of its own choosing; the loop takes
  that order as the list \<open>ks\<close>.
\<close>

fun summaryLoop :: "Time \<Rightarrow> (string \<rightharpoonup> Habit) \<Rightarrow> string list \<Rightarrow> string list" where
  "summaryLoop now m [] = []"
| "summaryLoop now m (k # ks) =
     (case m k of
        None \<Rightarrow> summaryLoop now m ks
      | Some hbt \<Rightarrow>
          (let n = daysSince now (LastDone hbt)
           in if 0 < n
              then (let dayOutput = (if n = 1 then ''day'' else ''days'')
                    in inactiveMsg n dayOutput (Name hbt) # summaryLoop now m ks)
              else streakMsg (CurrentStreak hbt) (Name hbt) # summaryLoop now m ks))"

definition PrintSummary :: "Time \<Rightarrow> string list \<Rightarrow> Tracker \<Rightarrow> string list" where
  "PrintSummary now ks t = (if dom (data (store t)) = {} then [noHabitsMsg]
                            else summaryLoop now (data (store t)) ks)"

section \<open>Runs, summaries and scenarios\<close>

text \<open>A sequence of \<open>Set\<close> calls on a store, first call first.\<close>

fun setCalls :: "(string \<times> Habit) list \<Rightarrow> store \<Rightarrow> store" where
  "setCalls [] s = s"
| "setCalls ((key, hb) # calls) s = setCalls calls (Set s key hb)"

text \<open>
  The trackers that \<open>n\<close> successful \<open>Track\<close> calls lead to from an empty store. The
  clock value, the habit name and the state of the file system are free at every call.
\<close>

inductive reachableIn :: "nat \<Rightarrow> Tracker \<Rightarrow> bool" where
  reachableIn_empty: "data (store t) = Map.empty \<Longrightarrow> reachableIn 0 t"
| reachableIn_Track: "reachableIn n t \<Longrightarrow> failure (Track now t fs hbtName) = None
                      \<Longrightarrow> reachableIn (Suc n) (tracker (Track now t fs hbtName))"

text \<open>
  The day count in the words of the specification: \<open>floor((now - last) in hours / 24)\<close>,
  the whole days between the two instants.
\<close>

definition daysFloor :: "Time \<Rightarrow> Time \<Rightarrow> int" where
  "daysFloor t u = (unixNano t - unixNano u) div (24 * Hour)"

text \<open>
  The summary event of one habit in the words of the specification: inactive for
  \<open>daysFloor\<close> days when that count is positive, on a streak of \<open>currentStreak\<close> days
  otherwise.
\<close>

definition summaryEvent :: "Time \<Rightarrow> Habit \<Rightarrow> string" where
  "summaryEvent now h =
     (if 0 < daysFloor now (LastDone h)
      then inactiveMsg (daysFloor now (LastDone h))
             (if daysFloor now (LastDone h) = 1 then ''day'' else ''days'') (Name h)
      else streakMsg (CurrentStreak h) (Name h))"

text \<open>
  The same event with the day count that the float64 expression of the code gives in
  the inactive message.
\<close>

definition summaryWrite :: "Time \<Rightarrow> Habit \<Rightarrow> string" where
  "summaryWrite now h =
     (if 0 < daysFloor now (LastDone h)
      then inactiveMsg (daysSince now (LastDone h))
             (if daysSince now (LastDone h) = 1 then ''day'' else ''days'') (Name h)
      else streakMsg (CurrentStreak h) (Name h))"

text \<open>Fixtures of the scenarios: timestamps by Unix seconds, a writable empty disk.\<close>

definition utc :: "int \<Rightarrow> Time" where
  "utc secs = \<lparr>unixNano = secs * 1000000000, zoneOffset = 0\<rparr>"

definition zoned :: "int \<Rightarrow> int \<Rightarrow> Time" where
  "zoned secs off = \<lparr>unixNano = secs * 1000000000, zoneOffset = off\<rparr>"

definition emptyDisk :: fsys where
  "emptyDisk = \<lparr>files = Map.empty, createErr = Map.empty, writeFails = False\<rparr>"

definition trackerWith :: "string \<Rightarrow> Habit \<Rightarrow> Tracker" where
  "trackerWith p h = \<lparr>outputw = Stdout, store = \<lparr>path = p, data = [Name h \<mapsto> h]\<rparr>\<rparr>"

text \<open>
  Trackers of the scenarios: one on the in-memory store that \<open>OpenStore("")\<close> returns,
  one on a store file that does not exist yet, one with three habits; and a disk whose
  \<open>habit.store\<close> cannot be read.
\<close>

definition memTracker :: Tracker where
  "memTracker = \<lparr>outputw = Stdout, store = \<lparr>path = [], data = Map.empty\<rparr>\<rparr>"

definition lockedDisk :: fsys where
  "lockedDisk = \<lparr>files = [''habit.store'' \<mapsto> \<lparr>content = NotGob, readable = False, writable = False\<rparr>],
                  createErr = Map.empty, writeFails = False\<rparr>"

definition freshTracker :: Tracker where
  "freshTracker = \<lparr>outputw = Stdout, store = \<lparr>path = ''habit.store'', data = Map.empty\<rparr>\<rparr>"

definition summaryTracker :: Tracker where
  "summaryTracker = \<lparr>outputw = Stdout, store = \<lparr>path = ''test.store'', data =
     [''programming'' \<mapsto> \<lparr>Name = ''programming'', CurrentStreak = 1, LastDone = utc 1707136200\<rparr>,
      ''exercising'' \<mapsto> \<lparr>Name = ''exercising'', CurrentStreak = 4, LastDone = utc 1706965200\<rparr>,
      ''reading'' \<mapsto> \<lparr>Name = ''reading'', CurrentStreak = 6, LastDone = utc 1707210000\<rparr>]\<rparr>\<rparr>"

text \<open>
  A clock that stands still while the zone offset flips between 0 and -1 second, so that
  successive readings fall on 1970-01-01 and 1969-12-31 in turn; and the tracker after
  the habit \<open>h\<close> has been recorded at readings 0 to \<open>n\<close> of that clock.
\<close>

definition flipTime :: "nat \<Rightarrow> Time" where
  "flipTime n = \<lparr>unixNano = 0, zoneOffset = (if even n then 0 else - 1)\<rparr>"

definition flipTracker :: "nat \<Rightarrow> Tracker" where
  "flipTracker n = \<lparr>outputw = Stdout, store = \<lparr>path = ''habit.store'', data =
     [''h'' \<mapsto> \<lparr>Name = ''h'', CurrentStreak = wrapInt (1 + int n), LastDone = flipTime n\<rparr>]\<rparr>\<rparr>"

text \<open>One nanosecond short of 171 days after the epoch.\<close>

definition almost171 :: Time where
  "almost171 = \<lparr>unixNano = 14774399999999999, zoneOffset = 0\<rparr>"

section \<open>The day count\<close>

text \<open>
  What the float64 arithmetic of \<open>int(now.Sub(last).Hours() / 24)\<close> amounts to. Rounding
  is monotone and exact on the integers below \<open>2 ^ 53\<close>; with that the day count is
  compared with the whole days between the two instants.
\<close>

subsection \<open>Powers of two and the binary logarithm\<close>

lemma pow2_powi: "pow2 k = 2 powi k"
  by (simp add: pow2_def power_int_def power_one_over inverse_eq_divide)

lemma pow2_pos: "0 < pow2 k"
  by (simp add: pow2_powi)

lemma pow2_mono: "a \<le> b \<Longrightarrow> pow2 a \<le> pow2 b"
  by (simp add: pow2_powi power_int_increasing)

lemma pow2_add: "pow2 (a + b) = pow2 a * pow2 b"
  by (simp add: pow2_powi power_int_add)

lemma pow2_nat: "0 \<le> k \<Longrightarrow> pow2 k = 2 ^ nat k"
  by (simp add: pow2_def)

lemma bitlen_pow2:
  assumes "0 < a"
  shows "pow2 (bitlen a - 1) \<le> of_int a" and "of_int a < pow2 (bitlen a)"
proof -
  from bitlen_bounds [OF assms] have lo: "2 ^ nat (bitlen a - 1) \<le> a" and hi: "a < 2 ^ nat (bitlen a)"
    by simp_all
  have b1: "1 \<le> bitlen a"
    using assms by (simp add: bitlen_alt_def)
  from lo have "(of_int (2 ^ nat (bitlen a - 1)) :: rat) \<le> of_int a"
    by (simp only: of_int_le_iff)
  with b1 show "pow2 (bitlen a - 1) \<le> of_int a"
    by (simp add: pow2_nat)
  from hi have "(of_int a :: rat) < of_int (2 ^ nat (bitlen a))"
    by (simp only: of_int_less_iff)
  with b1 show "of_int a < pow2 (bitlen a)"
    by (simp add: pow2_nat)
qed

lemma ilog2_bounds:
  assumes "0 < q"
  shows "pow2 (ilog2 q) \<le> q" and "q < pow2 (ilog2 q + 1)"
proof -
  obtain a b where ab: "quotient_of q = (a, b)"
    by (cases "quotient_of q")
  then have b: "0 < b" and q: "q = of_int a / of_int b"
    by (simp_all add: quotient_of_denom_pos quotient_of_div)
  with assms have a: "0 < a"
    by (simp add: zero_less_divide_iff)
  let ?k = "bitlen a - bitlen b"
  have qb: "q * of_int b = of_int a"
    using b q by simp
  have up: "q < pow2 (?k + 1)"
  proof -
    have "q * pow2 (bitlen b - 1) \<le> q * of_int b"
      using bitlen_pow2(1) [OF b] assms by (simp add: mult_left_mono)
    also have "\<dots> < pow2 (bitlen a)"
      using bitlen_pow2(2) [OF a] qb by simp
    also have "\<dots> = pow2 (?k + 1) * pow2 (bitlen b - 1)"
      by (simp add: pow2_add [symmetric])
    finally show ?thesis
      using pow2_pos [of "bitlen b - 1"] by simp
  qed
  have low: "pow2 (?k - 1) \<le> q"
  proof -
    have "pow2 (?k - 1) * pow2 (bitlen b) = pow2 (bitlen a - 1)"
      by (simp add: pow2_add [symmetric])
    also have "\<dots> \<le> q * of_int b"
      using bitlen_pow2(1) [OF a] qb by simp
    also have "\<dots> \<le> q * pow2 (bitlen b)"
      using bitlen_pow2(2) [OF b] assms by (simp add: mult_left_mono)
    finally show ?thesis
      using pow2_pos [of "bitlen b"] by simp
  qed
  from ab up low show "pow2 (ilog2 q) \<le> q" and "q < pow2 (ilog2 q + 1)"
    by (auto simp: ilog2_def Let_def not_le)
qed

lemma ilog2_mono:
  assumes "0 < x" and "x \<le> y"
  shows "ilog2 x \<le> ilog2 y"
proof (rule ccontr)
  assume "\<not> ilog2 x \<le> ilog2 y"
  then have "ilog2 y + 1 \<le> ilog2 x"
    by simp
  then have "pow2 (ilog2 y + 1) \<le> pow2 (ilog2 x)"
    by (rule pow2_mono)
  also have "\<dots> \<le> x"
    using assms(1) by (rule ilog2_bounds)
  finally have "pow2 (ilog2 y + 1) \<le> y"
    using assms(2) by simp
  moreover have "y < pow2 (ilog2 y + 1)"
    using assms by (intro ilog2_bounds) simp
  ultimately show False
    by simp
qed

lemma ilog2_ge:
  assumes "0 < q" and "pow2 a \<le> q"
  shows "a \<le> ilog2 q"
proof (rule ccontr)
  assume "\<not> a \<le> ilog2 q"
  then have "pow2 (ilog2 q + 1) \<le> pow2 a"
    by (intro pow2_mono) simp
  with assms(2) ilog2_bounds(2) [OF assms(1)] show False
    by simp
qed

lemma ilog2_less:
  assumes "0 < q" and "q < pow2 a"
  shows "ilog2 q < a"
proof (rule ccontr)
  assume "\<not> ilog2 q < a"
  then have "pow2 a \<le> pow2 (ilog2 q)"
    by (intro pow2_mono) simp
  with assms(2) ilog2_bounds(1) [OF assms(1)] show False
    by simp
qed

subsection \<open>Rounding\<close>

lemma roundEven_of_int: "roundEven (of_int n) = n"
  by (simp add: roundEven_def)

lemma roundEven_mono:
  assumes "x \<le> y"
  shows "roundEven x \<le> roundEven y"
proof -
  have fl: "\<lfloor>x\<rfloor> \<le> \<lfloor>y\<rfloor>"
    using assms by (rule floor_mono)
  have lo: "\<lfloor>y\<rfloor> \<le> roundEven y" and hi: "roundEven x \<le> \<lfloor>x\<rfloor> + 1"
    by (simp_all add: roundEven_def Let_def)
  show ?thesis
  proof (cases "\<lfloor>x\<rfloor> = \<lfloor>y\<rfloor>")
    case True
    with assms show ?thesis
      by (auto simp: roundEven_def Let_def)
  next
    case False
    with fl lo hi show ?thesis
      by linarith
  qed
qed

lemma float64_zero: "float64 0 = 0"
  by (simp add: float64_def)

lemma float64_minus: "float64 (- q) = - float64 q"
  by (simp add: float64_def Let_def)

lemma roundEven_nonneg: "0 \<le> x \<Longrightarrow> 0 \<le> roundEven x"
  using roundEven_mono [of 0 x] roundEven_of_int [of 0] by simp

lemma float64_nonneg: "0 \<le> q \<Longrightarrow> 0 \<le> float64 q"
  by (auto simp: float64_def Let_def sgn_if intro!: mult_nonneg_nonneg roundEven_nonneg
      simp: pow2_pos less_imp_le)

lemma float64_mono_pos:
  assumes "0 < x" and "x \<le> y"
  shows "float64 x \<le> float64 y"
proof -
  let ?ex = "max (ilog2 x - 52) (- 1074)"
  let ?ey = "max (ilog2 y - 52) (- 1074)"
  from assms have y: "0 < y"
    by simp
  have fx: "float64 x = of_int (roundEven (x / pow2 ?ex)) * pow2 ?ex"
    using assms(1) by (simp add: float64_def Let_def)
  have fy: "float64 y = of_int (roundEven (y / pow2 ?ey)) * pow2 ?ey"
    using y by (simp add: float64_def Let_def)
  have le: "?ex \<le> ?ey"
    using ilog2_mono [OF assms] by simp
  show ?thesis
  proof (cases "?ex = ?ey")
    case True
    have "x / pow2 ?ey \<le> y / pow2 ?ey"
      using assms(2) pow2_pos [of ?ey] by (simp add: divide_right_mono)
    then have "roundEven (x / pow2 ?ey) \<le> roundEven (y / pow2 ?ey)"
      by (rule roundEven_mono)
    then have "(of_int (roundEven (x / pow2 ?ey)) :: rat) * pow2 ?ey
        \<le> of_int (roundEven (y / pow2 ?ey)) * pow2 ?ey"
      using pow2_pos [of ?ey] by (simp add: mult_right_mono)
    with fx fy True show ?thesis
      by simp
  next
    case False
    with le have lt: "?ex + 1 \<le> ?ey" and ey: "?ey = ilog2 y - 52"
      by auto
    have "x < pow2 (ilog2 x + 1)"
      using assms(1) by (rule ilog2_bounds)
    also have "\<dots> \<le> pow2 (?ex + 53)"
      by (rule pow2_mono) simp
    also have "\<dots> = 2 ^ 53 * pow2 ?ex"
      by (simp add: pow2_add pow2_nat)
    finally have "x / pow2 ?ex \<le> of_int (2 ^ 53)"
      using pow2_pos [of ?ex] by (simp add: pos_divide_le_eq)
    then have "roundEven (x / pow2 ?ex) \<le> 2 ^ 53"
      using roundEven_mono roundEven_of_int by metis
    then have "(of_int (roundEven (x / pow2 ?ex)) :: rat) \<le> of_int (2 ^ 53)"
      by (simp only: of_int_le_iff)
    then have "float64 x \<le> 2 ^ 53 * pow2 ?ex"
      using pow2_pos [of ?ex] by (simp add: fx mult_right_mono)
    also have "\<dots> = pow2 (?ex + 53)"
      by (simp add: pow2_add pow2_nat)
    also have "\<dots> \<le> pow2 (?ey + 52)"
      using lt by (intro pow2_mono) simp
    also have "\<dots> = 2 ^ 52 * pow2 ?ey"
      by (simp add: pow2_add pow2_nat)
    also have "\<dots> \<le> float64 y"
    proof -
      have "pow2 (?ey + 52) \<le> y"
        using ilog2_bounds(1) [OF y] ey by simp
      then have "of_int (2 ^ 52) \<le> y / pow2 ?ey"
        using pow2_pos [of ?ey] by (simp add: pos_le_divide_eq pow2_add pow2_nat)
      then have "2 ^ 52 \<le> roundEven (y / pow2 ?ey)"
        using roundEven_mono roundEven_of_int by metis
      then have "(of_int (2 ^ 52) :: rat) \<le> of_int (roundEven (y / pow2 ?ey))"
        by (simp only: of_int_le_iff)
      then show ?thesis
        using pow2_pos [of ?ey] by (simp add: fy mult_right_mono)
    qed
    finally show ?thesis .
  qed
qed

lemma float64_mono:
  assumes "x \<le> y"
  shows "float64 x \<le> float64 y"
proof -
  consider "0 < x" | "x \<le> 0" "0 \<le> y" | "y < 0"
    by linarith
  then show ?thesis
  proof cases
    case 1
    then show ?thesis
      using assms by (rule float64_mono_pos)
  next
    case 2
    then have "0 \<le> float64 (- x)" and "0 \<le> float64 y"
      by (simp_all add: float64_nonneg)
    then show ?thesis
      by (simp add: float64_minus)
  next
    case 3
    with assms have "float64 (- y) \<le> float64 (- x)"
      by (intro float64_mono_pos) simp_all
    then show ?thesis
      by (simp add: float64_minus)
  qed
qed

lemma float64_of_int:
  assumes "0 \<le> n" and "n < 2 ^ 53"
  shows "float64 (of_int n) = of_int n"
proof (cases "n = 0")
  case True
  then show ?thesis
    by (simp add: float64_zero)
next
  case False
  with assms have pos: "0 < (of_int n :: rat)"
    by simp
  let ?e = "ilog2 (of_int n) - 52"
  have "pow2 0 \<le> of_int n"
    using assms False by (simp add: pow2_def)
  with pos have lo: "0 \<le> ilog2 (of_int n)"
    by (rule ilog2_ge)
  have "(of_int n :: rat) < of_int (2 ^ 53)"
    using assms(2) by (simp only: of_int_less_iff)
  then have "of_int n < pow2 53"
    by (simp add: pow2_def)
  with pos have hi: "ilog2 (of_int n) < 53"
    by (rule ilog2_less)
  from lo have e: "max ?e (- 1074) = ?e"
    by simp
  have inv: "1 / pow2 ?e = of_int (2 ^ nat (- ?e))"
    using hi by (simp add: pow2_def)
  have "of_int n / pow2 ?e = of_int (n * 2 ^ nat (- ?e))"
    using inv by (simp add: divide_inverse)
  then have "roundEven (of_int n / pow2 ?e) = n * 2 ^ nat (- ?e)"
    by (simp only: roundEven_of_int)
  then have "float64 (of_int n) = of_int (n * 2 ^ nat (- ?e)) * pow2 ?e"
    using pos e by (simp add: float64_def Let_def)
  also have "\<dots> = of_int n * (of_int (2 ^ nat (- ?e)) * pow2 ?e)"
    by simp
  also have "of_int (2 ^ nat (- ?e)) * pow2 ?e = 1"
    using inv [symmetric] pow2_pos [of ?e] by simp
  finally show ?thesis
    by simp
qed

lemma roundEven_less:
  assumes "y + 1 / 2 < of_int n"
  shows "roundEven y < n"
proof -
  have "of_int \<lfloor>y\<rfloor> \<le> y"
    by simp
  with assms have "\<lfloor>y\<rfloor> < n"
    by (simp add: floor_less_iff)
  moreover have "\<lfloor>y\<rfloor> + 1 < n" if "1 / 2 \<le> y - of_int \<lfloor>y\<rfloor>"
  proof -
    from that assms have "of_int (\<lfloor>y\<rfloor> + 1) < (of_int n :: rat)"
      by simp
    then show ?thesis
      by (simp only: of_int_less_iff)
  qed
  ultimately show ?thesis
    by (auto simp: roundEven_def Let_def not_less)
qed

lemma float64_round_down:
  assumes "0 < q" and "- 1074 \<le> ilog2 q - 52"
    and "q + pow2 (ilog2 q - 53) < of_int n * pow2 (ilog2 q - 52)"
  shows "float64 q \<le> of_int n * pow2 (ilog2 q - 52) - pow2 (ilog2 q - 52)"
proof -
  let ?e = "ilog2 q - 52"
  have half: "pow2 (ilog2 q - 53) = pow2 ?e / 2"
    using pow2_add [of "ilog2 q - 53" 1] by (simp add: pow2_def)
  from assms(3) have "(q + pow2 ?e / 2) / pow2 ?e < of_int n"
    using pow2_pos [of ?e] by (simp add: half pos_divide_less_eq)
  then have "q / pow2 ?e + 1 / 2 < of_int n"
    using pow2_pos [of ?e] by (simp add: add_divide_distrib)
  then have "roundEven (q / pow2 ?e) \<le> n - 1"
    using roundEven_less by fastforce
  then have "(of_int (roundEven (q / pow2 ?e)) :: rat) \<le> of_int (n - 1)"
    by (simp only: of_int_le_iff)
  then have "of_int (roundEven (q / pow2 ?e)) * pow2 ?e \<le> of_int (n - 1) * pow2 ?e"
    using pow2_pos [of ?e] by (simp add: mult_right_mono)
  moreover have "max ?e (- 1074) = ?e"
    using assms(2) by (rule max_absorb1)
  then have "float64 q = of_int (roundEven (q / pow2 ?e)) * pow2 ?e"
    using assms(1) by (simp add: float64_def Let_def)
  ultimately show ?thesis
    by (simp add: algebra_simps)
qed

text \<open>An integer below the next power of two, seen from a value just under it.\<close>

lemma float64_below_int:
  assumes "0 < q" and "- 1022 \<le> ilog2 q" and "ilog2 q \<le> 52"
    and "q + pow2 (ilog2 q - 53) < of_int N"
  shows "float64 q \<le> of_int N - pow2 (ilog2 q - 52)"
proof -
  let ?e = "ilog2 q - 52"
  have inv: "of_int (2 ^ nat (- ?e)) * pow2 ?e = 1"
    using assms(3) by (simp add: pow2_def)
  have "of_int (N * 2 ^ nat (- ?e)) * pow2 ?e = of_int N * (of_int (2 ^ nat (- ?e)) * pow2 ?e)"
    by simp
  then have n: "of_int (N * 2 ^ nat (- ?e)) * pow2 ?e = of_int N"
    by (simp only: inv mult_1_right)
  from assms(2) have "- 1074 \<le> ?e"
    by simp
  from float64_round_down [OF assms(1) this, of "N * 2 ^ nat (- ?e)"] assms(4) show ?thesis
    by (simp only: n)
qed

subsection \<open>Hours and days\<close>

lemma last_nanosecond:
  "float64 (float64 3599999999999 / 3600000000000) = 1 - 2502 / 2 ^ 53"
  by code_simp

lemma sdiv_smod_nonneg:
  assumes "0 \<le> d"
  shows "d sdiv Hour = d div Hour" and "d smod Hour = d mod Hour"
  using assms by (simp_all add: signed_divide_int_def signed_modulo_int_def Hour_def sgn_if)

lemma Hours_lower:
  assumes "0 \<le> d" and "n * Hour \<le> d"
  shows "float64 (float64 (of_int n)) \<le> Hours d"
proof -
  from assms(2) have "n \<le> d div Hour"
    by (simp add: Hour_def less_eq_div_iff_mult_less_eq)
  then have "(of_int n :: rat) \<le> of_int (d sdiv Hour)"
    using assms(1) by (simp add: sdiv_smod_nonneg)
  then have "float64 (of_int n) \<le> float64 (of_int (d sdiv Hour))"
    by (rule float64_mono)
  moreover have "0 \<le> d mod Hour"
    by (simp add: Hour_def)
  then have "0 \<le> float64 (float64 (of_int (d smod Hour)) / 3600000000000)"
    using assms(1) by (simp add: float64_nonneg sdiv_smod_nonneg)
  ultimately have "float64 (of_int n) \<le> float64 (of_int (d sdiv Hour))
      + float64 (float64 (of_int (d smod Hour)) / 3600000000000)"
    by simp
  then show ?thesis
    unfolding Hours_def Let_def by (rule float64_mono)
qed

lemma Hours_upper:
  assumes "0 \<le> d" and "d < (n + 1) * Hour"
  shows "Hours d \<le> float64 (float64 (of_int n) + (1 - 2502 / 2 ^ 53))"
proof -
  from assms(2) have "d div Hour < n + 1"
    by (simp add: Hour_def div_less_iff_less_mult)
  then have "(of_int (d sdiv Hour) :: rat) \<le> of_int n"
    using assms(1) by (simp add: sdiv_smod_nonneg)
  then have a: "float64 (of_int (d sdiv Hour)) \<le> float64 (of_int n)"
    by (rule float64_mono)
  have "d mod Hour \<le> 3599999999999"
    using pos_mod_bound [of Hour d] by (simp add: Hour_def)
  then have "(of_int (d smod Hour) :: rat) \<le> 3599999999999"
    using assms(1) by (simp add: sdiv_smod_nonneg)
  then have "float64 (of_int (d smod Hour)) \<le> float64 3599999999999"
    by (rule float64_mono)
  then have "float64 (of_int (d smod Hour)) / 3600000000000 \<le> float64 3599999999999 / 3600000000000"
    by (simp add: divide_right_mono)
  then have "float64 (float64 (of_int (d smod Hour)) / 3600000000000)
      \<le> float64 (float64 3599999999999 / 3600000000000)"
    by (rule float64_mono)
  with a have "float64 (of_int (d sdiv Hour)) + float64 (float64 (of_int (d smod Hour)) / 3600000000000)
      \<le> float64 (of_int n) + float64 (float64 3599999999999 / 3600000000000)"
    by (rule add_mono)
  then have "Hours d \<le> float64 (float64 (of_int n) + float64 (float64 3599999999999 / 3600000000000))"
    unfolding Hours_def Let_def by (rule float64_mono)
  then show ?thesis
    by (simp only: last_nanosecond)
qed

lemma pow2_shift: "pow2 (a + 1) * pow2 (- 53) = pow2 (a - 52)"
  using pow2_add [of "a + 1" "- 53"] by simp

text \<open>Fewer than \<open>k + 1\<close> days, for \<open>k\<close> below 170, give a quotient under \<open>k + 1\<close>.\<close>

lemma days_upper:
  assumes k: "0 \<le> k" "k < 170"
    and d: "0 \<le> d" "d < 24 * (k + 1) * Hour"
  shows "float64 (Hours d / 24) < of_int (k + 1)"
proof -
  let ?N = "24 * (k + 1)"
  let ?X = "of_int ?N - 2502 / 2 ^ 53 :: rat"
  let ?p = "ilog2 ?X"
  let ?F = "float64 ?X"
  let ?Z = "?F / 24"
  let ?q = "ilog2 ?Z"
  have Nr: "(24 :: rat) \<le> of_int ?N" "(of_int ?N :: rat) \<le> 4080"
    using k by simp_all
  then have X: "23 < ?X" "?X < of_int ?N"
    by simp_all
  then have Xpos: "0 < ?X"
    by simp
  have "d < (24 * k + 23 + 1) * Hour"
    using d(2) by (simp add: algebra_simps)
  with d(1) have "Hours d \<le> float64 (float64 (of_int (24 * k + 23)) + (1 - 2502 / 2 ^ 53))"
    by (rule Hours_upper)
  moreover have "float64 (of_int (24 * k + 23)) = of_int (24 * k + 23)"
    using k by (intro float64_of_int) simp_all
  ultimately have H: "Hours d \<le> ?F"
    by (simp add: algebra_simps)
  have "pow2 4 \<le> ?X"
    using X(1) by (simp add: pow2_def)
  with Xpos have p4: "4 \<le> ?p"
    by (rule ilog2_ge)
  have "?X < pow2 12"
    using X(2) Nr(2) by (simp add: pow2_def)
  with Xpos have p11: "?p < 12"
    by (rule ilog2_less)
  have "pow2 (?p - 53) \<le> pow2 (- 42)"
    using p11 by (intro pow2_mono) simp
  also have "\<dots> < 2502 / 2 ^ 53"
    by (simp add: pow2_def)
  finally have "?X + pow2 (?p - 53) < of_int ?N"
    by simp
  with Xpos p4 p11 have F: "?F \<le> of_int ?N - pow2 (?p - 52)"
    by (intro float64_below_int) simp_all
  have "(23 :: rat) \<le> ?X"
    using X(1) by simp
  then have "float64 (of_int 23) \<le> ?F"
    by (simp only: of_int_numeral float64_mono)
  then have F23: "23 \<le> ?F"
    using float64_of_int [of 23] by simp
  then have Zpos: "0 < ?Z"
    by simp
  have "(of_int (?N - 1) :: rat) < ?X"
    by simp
  also have "?X < pow2 (?p + 1)"
    using Xpos by (rule ilog2_bounds)
  also have "pow2 (?p + 1) = of_int (2 ^ nat (?p + 1))"
    using p4 by (simp add: pow2_def)
  finally have "?N - 1 < 2 ^ nat (?p + 1)"
    by (simp only: of_int_less_iff)
  then have "?N \<le> 2 ^ nat (?p + 1)"
    by simp
  then have "(of_int ?N :: rat) \<le> of_int (2 ^ nat (?p + 1))"
    by (simp only: of_int_le_iff)
  also have "\<dots> = pow2 (?p + 1)"
    using p4 by (simp add: pow2_def)
  finally have "?F < pow2 (?p + 1)"
    using F pow2_pos [of "?p - 52"] by simp
  then have "?Z < pow2 (?p + 1) / 24"
    by (simp add: divide_strict_right_mono)
  moreover have "pow2 ?q \<le> ?Z"
    using Zpos by (rule ilog2_bounds)
  ultimately have qp: "24 * pow2 ?q < pow2 (?p + 1)"
    by simp
  have "pow2 (- 1) \<le> ?Z"
    using F23 by (simp add: pow2_def)
  with Zpos have q0: "- 1 \<le> ?q"
    by (rule ilog2_ge)
  have "?F < of_int ?N"
    using F pow2_pos [of "?p - 52"] by simp
  then have ZK: "?Z < of_int (k + 1)"
    by simp
  also have "\<dots> < pow2 8"
    using k by (simp add: pow2_def)
  finally have q8: "?q < 8"
    using Zpos by (intro ilog2_less) simp_all
  have "?Z + pow2 (?q - 53) < of_int (k + 1)"
  proof -
    have "pow2 (?q - 53) = pow2 ?q * pow2 (- 53)"
      using pow2_add [of ?q "- 53"] by simp
    also have "\<dots> < pow2 (?p + 1) / 24 * pow2 (- 53)"
      using qp pow2_pos [of "- 53"] by (simp add: mult_strict_right_mono)
    also have "\<dots> = pow2 (?p - 52) / 24"
      by (simp add: pow2_shift)
    finally have "?Z + pow2 (?q - 53) < (?F + pow2 (?p - 52)) / 24"
      by (simp add: add_divide_distrib)
    also have "\<dots> \<le> of_int ?N / 24"
      using F by (simp add: divide_right_mono)
    finally show ?thesis
      by simp
  qed
  with Zpos q0 q8 have "float64 ?Z \<le> of_int (k + 1) - pow2 (?q - 52)"
    by (intro float64_below_int) simp_all
  then have "float64 ?Z < of_int (k + 1)"
    using pow2_pos [of "?q - 52"] by simp
  moreover have "float64 (Hours d / 24) \<le> float64 ?Z"
    using H by (intro float64_mono) (simp add: divide_right_mono)
  ultimately show ?thesis
    by simp
qed

lemma days_lower:
  assumes k: "0 \<le> k" "k < 2 ^ 48"
    and d: "24 * k * Hour \<le> d"
  shows "of_int k \<le> float64 (Hours d / 24)"
proof -
  from k d have d0: "0 \<le> d"
    by (simp add: Hour_def)
  have "float64 (of_int (24 * k)) = of_int (24 * k)"
    using k by (intro float64_of_int) simp_all
  then have "float64 (float64 (of_int (24 * k))) = of_int (24 * k)"
    by simp
  with Hours_lower [OF d0 d] have "of_int (24 * k) \<le> Hours d"
    by (simp only:)
  then have "of_int k \<le> Hours d / 24"
    by simp
  then have "float64 (of_int k) \<le> float64 (Hours d / 24)"
    by (rule float64_mono)
  moreover have "float64 (of_int k) = of_int k"
    using k by (intro float64_of_int) simp_all
  ultimately show ?thesis
    by simp
qed

lemma Sub_not_Before:
  assumes "\<not> Before t u"
  shows "0 \<le> Sub t u"
    and "(24 * Hour \<le> Sub t u) = (24 * Hour \<le> unixNano t - unixNano u)"
    and "unixNano t - unixNano u < 170 * (24 * Hour) \<Longrightarrow> Sub t u = unixNano t - unixNano u"
  using assms by (auto simp: Sub_def Before_def Let_def minDuration_def maxDuration_def Hour_def)

lemma truncInt_floor: "0 \<le> x \<Longrightarrow> truncInt x = \<lfloor>x\<rfloor>"
  by (simp add: truncInt_def)

text \<open>
  When now is not before the stored time, the day count is not negative, and it is
  positive exactly when 24 hours or more have passed.
\<close>

lemma daysSince_not_Before:
  assumes "\<not> Before t u"
  shows "0 \<le> daysSince t u"
    and "(0 < daysSince t u) = (24 * Hour \<le> unixNano t - unixNano u)"
proof -
  let ?x = "float64 (Hours (Sub t u) / 24)"
  note d0 = Sub_not_Before(1) [OF assms]
  then have "24 * 0 * Hour \<le> Sub t u"
    by simp
  then have "of_int 0 \<le> ?x"
    by (intro days_lower) simp_all
  then have x0: "0 \<le> ?x"
    by simp
  then show "0 \<le> daysSince t u"
    by (simp add: daysSince_def truncInt_floor)
  show "(0 < daysSince t u) = (24 * Hour \<le> unixNano t - unixNano u)"
  proof (cases "24 * Hour \<le> Sub t u")
    case True
    then have "24 * 1 * Hour \<le> Sub t u"
      by simp
    then have "of_int 1 \<le> ?x"
      by (intro days_lower) simp_all
    then have "0 < daysSince t u"
      using x0 by (simp add: daysSince_def truncInt_floor less_floor_iff)
    with True Sub_not_Before(2) [OF assms] show ?thesis
      by simp
  next
    case False
    then have "Sub t u < 24 * (0 + 1) * Hour"
      by simp
    with d0 have "?x < of_int (0 + 1)"
      by (intro days_upper) simp_all
    with x0 have "daysSince t u = 0"
      by (simp add: daysSince_def truncInt_floor floor_eq_iff)
    with False Sub_not_Before(2) [OF assms] show ?thesis
      by simp
  qed
qed

text \<open>
  Up to 170 days the day count is the number of whole days passed, the integer
  quotient of the specification.
\<close>

lemma daysSince_whole_days:
  assumes "\<not> Before t u"
    and "unixNano t - unixNano u < 170 * (24 * Hour)"
  shows "daysSince t u = (unixNano t - unixNano u) div (24 * Hour)"
proof -
  let ?d = "unixNano t - unixNano u"
  let ?k = "?d div (24 * Hour)"
  let ?x = "float64 (Hours ?d / 24)"
  from assms have d: "0 \<le> ?d" and s: "Sub t u = ?d"
    using Sub_not_Before [OF assms(1)] by simp_all
  have k0: "0 \<le> ?k"
    using d by (simp add: Hour_def pos_imp_zdiv_nonneg_iff)
  have k170: "?k < 170"
    using assms(2) by (simp add: Hour_def div_less_iff_less_mult)
  have "24 * ?k * Hour \<le> ?d"
    using mult_div_mod_eq [of "24 * Hour" ?d] pos_mod_sign [of "24 * Hour" ?d]
    by (simp add: Hour_def)
  with k0 k170 have x1: "of_int ?k \<le> ?x"
    by (intro days_lower) simp_all
  have "?d < 24 * (?k + 1) * Hour"
    using mult_div_mod_eq [of "24 * Hour" ?d] pos_mod_bound [of "24 * Hour" ?d]
    by (simp add: Hour_def)
  with k0 k170 d have x2: "?x < of_int (?k + 1)"
    by (intro days_upper)
  from k0 x1 have "0 \<le> ?x"
    by (meson of_int_0_le_iff order_trans)
  with x1 x2 have "truncInt ?x = ?k"
    by (simp add: truncInt_floor floor_eq_iff)
  then show ?thesis
    by (simp add: daysSince_def s)
qed

text \<open>
  Beyond that the float64 sum of \<open>Hours\<close> can round up to the next whole hour: one
  nanosecond short of 171 days counts as 171.
\<close>

lemma daysSince_rounded_up:
  "daysSince \<lparr>unixNano = 171 * (24 * Hour) - 1, zoneOffset = 0\<rparr> \<lparr>unixNano = 0, zoneOffset = 0\<rparr> = 171"
  by code_simp

lemma float64_nonpos: "q \<le> 0 \<Longrightarrow> float64 q \<le> 0"
  using float64_mono [of q 0] by (simp add: float64_zero)

lemma Hours_nonpos:
  assumes "d \<le> 0"
  shows "Hours d \<le> 0"
proof -
  have "d sdiv Hour \<le> 0"
    using assms by (simp add: signed_divide_int_def Hour_def sgn_if pos_imp_zdiv_nonneg_iff)
  then have a: "float64 (of_int (d sdiv Hour)) \<le> 0"
    by (simp add: float64_nonpos)
  have "d smod Hour \<le> 0"
    using assms by (simp add: signed_modulo_int_def Hour_def sgn_if)
  then have "float64 (of_int (d smod Hour)) / 3600000000000 \<le> 0"
    by (simp add: float64_nonpos divide_nonpos_pos)
  then have "float64 (float64 (of_int (d smod Hour)) / 3600000000000) \<le> 0"
    by (rule float64_nonpos)
  with a show ?thesis
    by (simp add: Hours_def Let_def float64_nonpos)
qed

lemma daysSince_Before:
  assumes "Before t u"
  shows "daysSince t u \<le> 0"
proof -
  from assms have "Sub t u \<le> 0"
    by (auto simp: Sub_def Before_def Let_def minDuration_def)
  then have "Hours (Sub t u) / 24 \<le> 0"
    by (simp add: Hours_nonpos divide_nonpos_pos)
  then have "float64 (Hours (Sub t u) / 24) \<le> 0"
    by (rule float64_nonpos)
  then show ?thesis
    by (auto simp: daysSince_def truncInt_def ceiling_le_iff)
qed

text \<open>The day count is positive exactly when 24 hours or more have passed.\<close>

lemma daysSince_pos_iff: "(0 < daysSince t u) = (24 * Hour \<le> unixNano t - unixNano u)"
proof (cases "Before t u")
  case True
  then have "\<not> 24 * Hour \<le> unixNano t - unixNano u"
    by (simp add: Before_def Hour_def)
  with daysSince_Before [OF True] show ?thesis
    by simp
next
  case False
  then show ?thesis
    by (rule daysSince_not_Before)
qed

subsection \<open>The code's count and the whole days\<close>

lemma daysFloor_pos_iff: "(0 < daysFloor t u) = (24 * Hour \<le> unixNano t - unixNano u)"
  by (simp add: daysFloor_def Hour_def pos_imp_zdiv_pos_iff)

lemma daysSince_pos_floor: "(0 < daysSince t u) = (0 < daysFloor t u)"
  by (simp only: daysSince_pos_iff daysFloor_pos_iff)

lemma daysSince_floor_zero:
  assumes "\<not> Before t u" and "daysFloor t u = 0"
  shows "daysSince t u = 0"
proof -
  from assms(2) have "\<not> 0 < daysSince t u"
    by (simp add: daysSince_pos_floor)
  with daysSince_not_Before(1) [OF assms(1)] show ?thesis
    by simp
qed

lemma daysSince_eq_floor:
  assumes "unixNano t - unixNano u < 170 * (24 * Hour)"
    and "0 < daysFloor t u"
  shows "daysSince t u = daysFloor t u"
proof -
  from assms(2) have "\<not> Before t u"
    by (simp add: daysFloor_pos_iff Before_def Hour_def)
  then show ?thesis
    using assms(1) by (simp add: daysSince_whole_days daysFloor_def)
qed

lemma summaryWrite_eq_summaryEvent:
  assumes "unixNano now - unixNano (LastDone h) < 170 * (24 * Hour)"
  shows "summaryWrite now h = summaryEvent now h"
  using daysSince_eq_floor [OF assms] by (simp add: summaryWrite_def summaryEvent_def)

subsection \<open>Wrap-around\<close>

lemma wrapInt_id: "- (2 ^ 63) \<le> x \<Longrightarrow> x < 2 ^ 63 \<Longrightarrow> wrapInt x = x"
  by (simp add: wrapInt_def)

lemma wrapInt_Suc: "wrapInt (wrapInt x + 1) = wrapInt (x + 1)"
proof -
  have "((x + 2 ^ 63) mod 2 ^ 64 + 1) mod 2 ^ 64 = (x + 2 ^ 63 + 1) mod (2 ^ 64 :: int)"
    by (rule mod_add_left_eq)
  then show ?thesis
    by (simp add: wrapInt_def algebra_simps)
qed

section \<open>Recording an occurrence\<close>

text \<open>
  C1. For a habit present in the store, Track at a time strictly before the stored
  LastDone fails with the out-of-order error naming the habit, now and the stored time;
  the tracker, its store and the file system are as before and nothing is written.
\<close>

theorem Track_out_of_order:
  assumes "data (store t) hbtName = Some hbt"
    and "Before now (LastDone hbt)"
  shows "Track now t fs hbtName =
           \<lparr>failure = Some (OutOfOrder hbtName now (LastDone hbt)), tracker = t, disk = fs,
            written = []\<rparr>"
  using assms by (simp add: Track_def Let_def)

text \<open>Last done 2024-02-06T13:00:00Z, recorded at 2024-02-05T13:00:00Z.\<close>

theorem Track_out_of_order_witness:
  "data (store (trackerWith ''test.store''
       \<lparr>Name = ''programming'', CurrentStreak = 7, LastDone = utc 1707224400\<rparr>)) ''programming''
     = Some \<lparr>Name = ''programming'', CurrentStreak = 7, LastDone = utc 1707224400\<rparr>
   \<and> Before (utc 1707138000)
       (LastDone \<lparr>Name = ''programming'', CurrentStreak = 7, LastDone = utc 1707224400\<rparr>)
   \<and> Track (utc 1707138000) (trackerWith ''test.store''
       \<lparr>Name = ''programming'', CurrentStreak = 7, LastDone = utc 1707224400\<rparr>) emptyDisk
       ''programming''
     = \<lparr>failure = Some (OutOfOrder ''programming'' (utc 1707138000) (utc 1707224400)),
        tracker = trackerWith ''test.store''
          \<lparr>Name = ''programming'', CurrentStreak = 7, LastDone = utc 1707224400\<rparr>,
        disk = emptyDisk, written = []\<rparr>"
proof -
  let ?h = "\<lparr>Name = ''programming'', CurrentStreak = 7, LastDone = utc 1707224400\<rparr>"
  have present: "data (store (trackerWith ''test.store'' ?h)) ''programming'' = Some ?h"
    by (simp add: trackerWith_def)
  have earlier: "Before (utc 1707138000) (LastDone ?h)"
    by (simp add: Before_def utc_def)
  from Track_out_of_order [OF present earlier, of emptyDisk] present earlier
  show ?thesis by simp
qed

text \<open>
  C2. For a habit present in the store, when now is not before the stored LastDone and
  both fall on the same calendar date, Track keeps CurrentStreak, sets LastDone to now and
  writes the repeat-same-day message. The day count is no premise: the branch is taken
  whatever \<open>daysSince\<close> is.
\<close>

theorem Track_same_date:
  assumes "data (store t) hbtName = Some hbt"
    and "\<not> Before now (LastDone hbt)"
    and "sameDate now (LastDone hbt)"
  shows "tracker (Track now t fs hbtName) =
           t\<lparr>store := (store t)\<lparr>data := (data (store t))(hbtName \<mapsto> hbt\<lparr>LastDone := now\<rparr>)\<rparr>\<rparr>
         \<and> data (store (tracker (Track now t fs hbtName))) hbtName
             = Some \<lparr>Name = Name hbt, CurrentStreak = CurrentStreak hbt, LastDone = now\<rparr>
         \<and> written (Track now t fs hbtName) = [sameDayMsg hbtName]"
  using assms by (simp add: Track_def Let_def split: prod.split)

text \<open>
  A day of 25 hours: last done at 00:10 on 2024-11-03 at offset -4h, recorded at 23:50 of
  the same date at offset -5h, 24 hours and 40 minutes later. The day count is 1 and the
  streak stays 7.
\<close>

theorem Track_same_date_witness:
  "data (store (trackerWith ''test.store''
       \<lparr>Name = ''reading'', CurrentStreak = 7, LastDone = zoned 1730607000 (- 14400)\<rparr>)) ''reading''
     = Some \<lparr>Name = ''reading'', CurrentStreak = 7, LastDone = zoned 1730607000 (- 14400)\<rparr>
   \<and> \<not> Before (zoned 1730695800 (- 18000)) (zoned 1730607000 (- 14400))
   \<and> sameDate (zoned 1730695800 (- 18000)) (zoned 1730607000 (- 14400))
   \<and> daysSince (zoned 1730695800 (- 18000)) (zoned 1730607000 (- 14400)) = 1
   \<and> data (store (tracker (Track (zoned 1730695800 (- 18000)) (trackerWith ''test.store''
       \<lparr>Name = ''reading'', CurrentStreak = 7, LastDone = zoned 1730607000 (- 14400)\<rparr>)
       emptyDisk ''reading''))) ''reading''
     = Some \<lparr>Name = ''reading'', CurrentStreak = 7, LastDone = zoned 1730695800 (- 18000)\<rparr>
   \<and> written (Track (zoned 1730695800 (- 18000)) (trackerWith ''test.store''
       \<lparr>Name = ''reading'', CurrentStreak = 7, LastDone = zoned 1730607000 (- 14400)\<rparr>)
       emptyDisk ''reading'')
     = [''Way to go practicing your habit '' @ sq @ ''reading'' @ sq @ '' more than once today!'' @ nl]"
proof -
  let ?last = "zoned 1730607000 (- 14400)"
  let ?now = "zoned 1730695800 (- 18000)"
  let ?h = "\<lparr>Name = ''reading'', CurrentStreak = 7, LastDone = ?last\<rparr>"
  have present: "data (store (trackerWith ''test.store'' ?h)) ''reading'' = Some ?h"
    by (simp add: trackerWith_def)
  have later: "\<not> Before ?now (LastDone ?h)"
    by (simp add: Before_def zoned_def)
  have same: "sameDate ?now (LastDone ?h)"
    by code_simp
  have days: "daysSince ?now ?last = 1"
    by code_simp
  from Track_same_date [OF present later same, of emptyDisk] present later same days
  show ?thesis by (simp add: sameDayMsg_def)
qed

text \<open>
  C3, as amended. For a habit present in the store, when now is not before the stored
  LastDone, the two are not on the same calendar date and the whole days between them,
  \<open>floor((now - last) in hours / 24)\<close>, are more than 0, Track sets CurrentStreak to 1
  and LastDone to now and writes the streak-reset message. The count in the message is
  the one the code computes in float64, \<open>int(now.Sub(last).Hours() / 24)\<close>; it is the
  whole days whenever fewer than 170 days have passed.
\<close>

theorem Track_streak_reset:
  assumes "data (store t) hbtName = Some hbt"
    and "\<not> Before now (LastDone hbt)"
    and "\<not> sameDate now (LastDone hbt)"
    and "0 < daysFloor now (LastDone hbt)"
  shows "data (store (tracker (Track now t fs hbtName))) hbtName
           = Some \<lparr>Name = Name hbt, CurrentStreak = 1, LastDone = now\<rparr>
         \<and> written (Track now t fs hbtName)
             = [resetMsg hbtName (daysSince now (LastDone hbt))
                  (if daysSince now (LastDone hbt) = 1 then ''day'' else ''days'')]
         \<and> (unixNano now - unixNano (LastDone hbt) < 170 * (24 * Hour)
              \<longrightarrow> daysSince now (LastDone hbt) = daysFloor now (LastDone hbt))"
proof -
  from assms(4) have "0 < daysSince now (LastDone hbt)"
    by (simp only: daysSince_pos_floor)
  with assms(1-3) have "data (store (tracker (Track now t fs hbtName))) hbtName
           = Some \<lparr>Name = Name hbt, CurrentStreak = 1, LastDone = now\<rparr>"
    and "written (Track now t fs hbtName)
             = [resetMsg hbtName (daysSince now (LastDone hbt))
                  (if daysSince now (LastDone hbt) = 1 then ''day'' else ''days'')]"
    by (simp_all add: Track_def Let_def split: prod.split)
  with daysSince_eq_floor [OF _ assms(4)] show ?thesis
    by simp
qed

text \<open>Last done 2024-02-05T13:05:00Z, recorded at 2024-02-06T13:05:00Z.\<close>

theorem Track_streak_reset_witness:
  "data (store (trackerWith ''test.store''
       \<lparr>Name = ''exercising'', CurrentStreak = 5, LastDone = utc 1707138300\<rparr>)) ''exercising''
     = Some \<lparr>Name = ''exercising'', CurrentStreak = 5, LastDone = utc 1707138300\<rparr>
   \<and> \<not> Before (utc 1707224700) (utc 1707138300)
   \<and> \<not> sameDate (utc 1707224700) (utc 1707138300)
   \<and> 0 < daysFloor (utc 1707224700) (utc 1707138300)
   \<and> unixNano (utc 1707224700) - unixNano (utc 1707138300) < 170 * (24 * Hour)
   \<and> data (store (tracker (Track (utc 1707224700) (trackerWith ''test.store''
       \<lparr>Name = ''exercising'', CurrentStreak = 5, LastDone = utc 1707138300\<rparr>)
       emptyDisk ''exercising''))) ''exercising''
     = Some \<lparr>Name = ''exercising'', CurrentStreak = 1, LastDone = utc 1707224700\<rparr>
   \<and> written (Track (utc 1707224700) (trackerWith ''test.store''
       \<lparr>Name = ''exercising'', CurrentStreak = 5, LastDone = utc 1707138300\<rparr>)
       emptyDisk ''exercising'')
     = [''You last did the habit '' @ sq @ ''exercising'' @ sq
        @ '' 1 day ago, so you're starting a new streak today. Good luck!'' @ nl]
   \<and> daysSince (utc 1707224700) (utc 1707138300) = daysFloor (utc 1707224700) (utc 1707138300)"
proof -
  let ?last = "utc 1707138300"
  let ?now = "utc 1707224700"
  let ?h = "\<lparr>Name = ''exercising'', CurrentStreak = 5, LastDone = ?last\<rparr>"
  have present: "data (store (trackerWith ''test.store'' ?h)) ''exercising'' = Some ?h"
    by (simp add: trackerWith_def)
  have later: "\<not> Before ?now (LastDone ?h)"
    by (simp add: Before_def utc_def)
  have other: "\<not> sameDate ?now (LastDone ?h)"
    by code_simp
  have whole: "daysFloor ?now ?last = 1"
    by (simp add: daysFloor_def utc_def Hour_def)
  then have pos: "0 < daysFloor ?now (LastDone ?h)"
    by simp
  have short: "unixNano ?now - unixNano ?last < 170 * (24 * Hour)"
    by (simp add: utc_def Hour_def)
  from Track_streak_reset [OF present later other pos, of emptyDisk] present later other whole short
  show ?thesis by (simp add: resetMsg_def showInt_def showNat.simps)
qed

text \<open>
  Last done at the epoch, recorded one nanosecond short of 171 days later: 170 whole
  days have passed and the message says 171.
\<close>

theorem Track_streak_reset_rounded_counterexample:
  "data (store (trackerWith ''test.store''
       \<lparr>Name = ''h'', CurrentStreak = 5, LastDone = utc 0\<rparr>)) ''h''
     = Some \<lparr>Name = ''h'', CurrentStreak = 5, LastDone = utc 0\<rparr>
   \<and> \<not> Before almost171 (utc 0)
   \<and> \<not> sameDate almost171 (utc 0)
   \<and> daysFloor almost171 (utc 0) = 170
   \<and> written (Track almost171 (trackerWith ''test.store''
       \<lparr>Name = ''h'', CurrentStreak = 5, LastDone = utc 0\<rparr>) emptyDisk ''h'')
     = [''You last did the habit '' @ sq @ ''h'' @ sq
        @ '' 171 days ago, so you're starting a new streak today. Good luck!'' @ nl]
   \<and> written (Track almost171 (trackerWith ''test.store''
       \<lparr>Name = ''h'', CurrentStreak = 5, LastDone = utc 0\<rparr>) emptyDisk ''h'')
     \<noteq> [resetMsg ''h'' (daysFloor almost171 (utc 0)) ''days'']"
proof -
  let ?h = "\<lparr>Name = ''h'', CurrentStreak = 5, LastDone = utc 0\<rparr>"
  have present: "data (store (trackerWith ''test.store'' ?h)) ''h'' = Some ?h"
    by (simp add: trackerWith_def)
  have later: "\<not> Before almost171 (utc 0)"
    by (simp add: Before_def utc_def almost171_def)
  have other: "\<not> sameDate almost171 (utc 0)"
    by code_simp
  have whole: "daysFloor almost171 (utc 0) = 170"
    by (simp add: daysFloor_def utc_def almost171_def Hour_def)
  have days: "daysSince almost171 (utc 0) = 171"
    by code_simp
  have w: "written (Track almost171 (trackerWith ''test.store'' ?h) emptyDisk ''h'')
      = [resetMsg ''h'' 171 ''days'']"
    using later other days
    by (simp add: Track_def trackerWith_def Let_def split: prod.split)
  have m171: "resetMsg ''h'' 171 ''days'' = ''You last did the habit '' @ sq @ ''h'' @ sq
        @ '' 171 days ago, so you're starting a new streak today. Good luck!'' @ nl"
    by (simp add: resetMsg_def showInt_def showNat.simps)
  have m170: "resetMsg ''h'' 170 ''days'' = ''You last did the habit '' @ sq @ ''h'' @ sq
        @ '' 170 days ago, so you're starting a new streak today. Good luck!'' @ nl"
    by (simp add: resetMsg_def showInt_def showNat.simps)
  from present later other whole show ?thesis
    by (simp add: w m171 m170)
qed

text \<open>
  C4, as amended. For a habit present in the store, when now is not before the stored
  LastDone, the two are not on the same calendar date and no whole day lies between
  them, Track adds 1 to CurrentStreak in the arithmetic of a Go int and sets LastDone to
  now: the streak becomes CurrentStreak + 1 when CurrentStreak is below \<open>2 ^ 63 - 1\<close>,
  and \<open>- 2 ^ 63\<close> when it is \<open>2 ^ 63 - 1\<close>.
\<close>

theorem Track_streak_extend:
  assumes "data (store t) hbtName = Some hbt"
    and "\<not> Before now (LastDone hbt)"
    and "\<not> sameDate now (LastDone hbt)"
    and "daysFloor now (LastDone hbt) = 0"
  shows "data (store (tracker (Track now t fs hbtName))) hbtName
           = Some \<lparr>Name = Name hbt, CurrentStreak = wrapInt (CurrentStreak hbt + 1), LastDone = now\<rparr>
         \<and> written (Track now t fs hbtName)
             = [extendMsg hbtName (wrapInt (CurrentStreak hbt + 1)) ''days'']
         \<and> (- (2 ^ 63) \<le> CurrentStreak hbt \<and> CurrentStreak hbt < 2 ^ 63 - 1
              \<longrightarrow> wrapInt (CurrentStreak hbt + 1) = CurrentStreak hbt + 1)
         \<and> (CurrentStreak hbt = 2 ^ 63 - 1 \<longrightarrow> wrapInt (CurrentStreak hbt + 1) = - (2 ^ 63))"
proof -
  from assms(2,4) have "daysSince now (LastDone hbt) = 0"
    by (rule daysSince_floor_zero)
  with assms(1-3) have "data (store (tracker (Track now t fs hbtName))) hbtName
           = Some \<lparr>Name = Name hbt, CurrentStreak = wrapInt (CurrentStreak hbt + 1), LastDone = now\<rparr>"
    and "written (Track now t fs hbtName)
             = [extendMsg hbtName (wrapInt (CurrentStreak hbt + 1)) ''days'']"
    by (simp_all add: Track_def Let_def split: prod.split)
  moreover have "wrapInt (CurrentStreak hbt + 1) = CurrentStreak hbt + 1"
    if "- (2 ^ 63) \<le> CurrentStreak hbt" "CurrentStreak hbt < 2 ^ 63 - 1"
    using that by (intro wrapInt_id) simp_all
  moreover have "wrapInt (CurrentStreak hbt + 1) = - (2 ^ 63)" if "CurrentStreak hbt = 2 ^ 63 - 1"
    using that by (simp add: wrapInt_def)
  ultimately show ?thesis
    by blast
qed

text \<open>Last done 2024-02-05T13:00:00Z, recorded at 2024-02-06T12:59:00Z.\<close>

theorem Track_streak_extend_witness:
  "data (store (trackerWith ''test.store''
       \<lparr>Name = ''programming'', CurrentStreak = 1, LastDone = utc 1707138000\<rparr>)) ''programming''
     = Some \<lparr>Name = ''programming'', CurrentStreak = 1, LastDone = utc 1707138000\<rparr>
   \<and> \<not> Before (utc 1707224340) (utc 1707138000)
   \<and> \<not> sameDate (utc 1707224340) (utc 1707138000)
   \<and> daysFloor (utc 1707224340) (utc 1707138000) = 0
   \<and> - (2 ^ 63) \<le> (1 :: int) \<and> (1 :: int) < 2 ^ 63 - 1
   \<and> data (store (tracker (Track (utc 1707224340) (trackerWith ''test.store''
       \<lparr>Name = ''programming'', CurrentStreak = 1, LastDone = utc 1707138000\<rparr>)
       emptyDisk ''programming''))) ''programming''
     = Some \<lparr>Name = ''programming'', CurrentStreak = 2, LastDone = utc 1707224340\<rparr>
   \<and> written (Track (utc 1707224340) (trackerWith ''test.store''
       \<lparr>Name = ''programming'', CurrentStreak = 1, LastDone = utc 1707138000\<rparr>)
       emptyDisk ''programming'')
     = [''Nice work: you've done the habit '' @ sq @ ''programming'' @ sq
        @ '' for 2 days in a row now.'' @ nl]"
proof -
  let ?last = "utc 1707138000"
  let ?now = "utc 1707224340"
  let ?h = "\<lparr>Name = ''programming'', CurrentStreak = 1, LastDone = ?last\<rparr>"
  have present: "data (store (trackerWith ''test.store'' ?h)) ''programming'' = Some ?h"
    by (simp add: trackerWith_def)
  have later: "\<not> Before ?now (LastDone ?h)"
    by (simp add: Before_def utc_def)
  have other: "\<not> sameDate ?now (LastDone ?h)"
    by code_simp
  have whole: "daysFloor ?now (LastDone ?h) = 0"
    by (simp add: daysFloor_def utc_def Hour_def)
  have two: "wrapInt 2 = 2"
    by (simp add: wrapInt_def)
  from Track_streak_extend [OF present later other whole, of emptyDisk] present later other whole
  show ?thesis by (simp add: two extendMsg_def showInt_def showNat.simps)
qed

text \<open>The same recording on a habit whose streak is the largest int.\<close>

theorem Track_streak_extend_wrap_counterexample:
  "data (store (trackerWith ''test.store''
       \<lparr>Name = ''programming'', CurrentStreak = 9223372036854775807, LastDone = utc 1707138000\<rparr>))
       ''programming''
     = Some \<lparr>Name = ''programming'', CurrentStreak = 9223372036854775807, LastDone = utc 1707138000\<rparr>
   \<and> \<not> Before (utc 1707224340) (utc 1707138000)
   \<and> \<not> sameDate (utc 1707224340) (utc 1707138000)
   \<and> daysFloor (utc 1707224340) (utc 1707138000) = 0
   \<and> data (store (tracker (Track (utc 1707224340) (trackerWith ''test.store''
       \<lparr>Name = ''programming'', CurrentStreak = 9223372036854775807, LastDone = utc 1707138000\<rparr>)
       emptyDisk ''programming''))) ''programming''
     = Some \<lparr>Name = ''programming'', CurrentStreak = - 9223372036854775808,
             LastDone = utc 1707224340\<rparr>
   \<and> written (Track (utc 1707224340) (trackerWith ''test.store''
       \<lparr>Name = ''programming'', CurrentStreak = 9223372036854775807, LastDone = utc 1707138000\<rparr>)
       emptyDisk ''programming'')
     = [''Nice work: you've done the habit '' @ sq @ ''programming'' @ sq
        @ '' for -9223372036854775808 days in a row now.'' @ nl]"
proof -
  let ?last = "utc 1707138000"
  let ?now = "utc 1707224340"
  let ?h = "\<lparr>Name = ''programming'', CurrentStreak = 9223372036854775807, LastDone = ?last\<rparr>"
  have present: "data (store (trackerWith ''test.store'' ?h)) ''programming'' = Some ?h"
    by (simp add: trackerWith_def)
  have later: "\<not> Before ?now ?last"
    by (simp add: Before_def utc_def)
  have other: "\<not> sameDate ?now ?last"
    by code_simp
  have whole: "daysFloor ?now ?last = 0"
    by (simp add: daysFloor_def utc_def Hour_def)
  have days: "daysSince ?now ?last = 0"
    by code_simp
  have wrapped: "wrapInt (9223372036854775807 + 1) = - 9223372036854775808"
    by (simp add: wrapInt_def)
  have shown: "showInt (- 9223372036854775808) = ''-9223372036854775808''"
    by (simp add: showInt_def showNat.simps)
  have r: "data (store (tracker (Track ?now (trackerWith ''test.store'' ?h) emptyDisk
        ''programming''))) ''programming''
      = Some \<lparr>Name = ''programming'', CurrentStreak = - 9223372036854775808, LastDone = ?now\<rparr>"
    and w: "written (Track ?now (trackerWith ''test.store'' ?h) emptyDisk ''programming'')
      = [extendMsg ''programming'' (- 9223372036854775808) ''days'']"
    using later other days wrapped
    by (simp_all add: Track_def trackerWith_def Let_def split: prod.split)
  from present later other whole r show ?thesis
    by (simp add: w extendMsg_def shown)
qed

section \<open>Saving and opening the store\<close>

text \<open>\<open>os.Create\<close> leaves an empty, readable file at a non-empty path.\<close>

lemma os_Create_files:
  "os_Create fs p = Inr fs1 \<Longrightarrow>
     p \<noteq> [] \<and> (\<exists>f. files fs1 p = Some f \<and> readable f \<and> content f = NotGob)
     \<and> writeFails fs1 = writeFails fs \<and> createErr fs1 = createErr fs"
  by (auto simp: os_Create_def split: if_splits option.splits)

text \<open>After a save that returned nil the file holds the stream of the store's mapping.\<close>

lemma Save_ok_file:
  assumes "Save s fs = (None, fs')"
  shows "path s \<noteq> [] \<and> (\<exists>f. files fs' (path s) = Some f \<and> readable f \<and> content f = Gob (data s))"
proof -
  from assms obtain fs1 where c: "os_Create fs (path s) = Inr fs1"
    and e: "gob_Encode fs1 (path s) (data s) = (True, fs')"
    by (auto simp: Save_def split: sum.splits prod.splits bool.splits)
  from os_Create_files [OF c] obtain f where f: "path s \<noteq> []" "files fs1 (path s) = Some f" "readable f"
    by blast
  from e f show ?thesis
    by (auto simp: gob_Encode_def split: if_splits)
qed

lemma Save_then_OpenStore:
  assumes "Save s fs = (None, fs')"
  shows "OpenStore fs' (path s) = Inr s"
proof -
  from Save_ok_file [OF assms] obtain f where "path s \<noteq> []" "files fs' (path s) = Some f"
    "readable f" "content f = Gob (data s)"
    by blast
  then show ?thesis
    by (simp add: OpenStore_def os_Open_def gob_Decode_def)
qed

lemma path_setCalls: "path (setCalls calls s) = path s"
  by (induction calls s rule: setCalls.induct) (simp_all add: Set_def)

text \<open>
  C6. After any sequence of Set calls on a store bound to a non-empty path and a Save
  that returned nil, OpenStore of the same path succeeds, and All of the store it returns
  is the mapping that was saved.
\<close>

theorem Save_OpenStore_roundtrip:
  assumes "path s \<noteq> []"
    and "Save (setCalls calls s) fs = (None, fs')"
  shows "case OpenStore fs' (path s) of
           Inl e \<Rightarrow> False
         | Inr s' \<Rightarrow> All s' = All (setCalls calls s)"
  using Save_then_OpenStore [OF assms(2)] by (simp add: path_setCalls)

text \<open>Three Set calls, two on the same key, saved to a new file and read back.\<close>

theorem Save_OpenStore_roundtrip_witness:
  "path \<lparr>path = ''temp.store'', data = Map.empty\<rparr> \<noteq> []
   \<and> fst (Save (setCalls
         [(''habit1'', \<lparr>Name = ''habit1'', CurrentStreak = 0, LastDone = zeroTime\<rparr>),
          (''habit2'', \<lparr>Name = ''habit2'', CurrentStreak = 3, LastDone = utc 1707224400\<rparr>),
          (''habit1'', \<lparr>Name = ''habit1'', CurrentStreak = 2, LastDone = utc 1707138000\<rparr>)]
         \<lparr>path = ''temp.store'', data = Map.empty\<rparr>) emptyDisk) = None
   \<and> map_sum id All (OpenStore (snd (Save (setCalls
         [(''habit1'', \<lparr>Name = ''habit1'', CurrentStreak = 0, LastDone = zeroTime\<rparr>),
          (''habit2'', \<lparr>Name = ''habit2'', CurrentStreak = 3, LastDone = utc 1707224400\<rparr>),
          (''habit1'', \<lparr>Name = ''habit1'', CurrentStreak = 2, LastDone = utc 1707138000\<rparr>)]
         \<lparr>path = ''temp.store'', data = Map.empty\<rparr>) emptyDisk)) ''temp.store'')
       = Inr [''habit1'' \<mapsto> \<lparr>Name = ''habit1'', CurrentStreak = 2, LastDone = utc 1707138000\<rparr>,
              ''habit2'' \<mapsto> \<lparr>Name = ''habit2'', CurrentStreak = 3, LastDone = utc 1707224400\<rparr>]"
proof -
  let ?s = "\<lparr>path = ''temp.store'', data = Map.empty\<rparr>"
  let ?calls = "[(''habit1'', \<lparr>Name = ''habit1'', CurrentStreak = 0, LastDone = zeroTime\<rparr>),
          (''habit2'', \<lparr>Name = ''habit2'', CurrentStreak = 3, LastDone = utc 1707224400\<rparr>),
          (''habit1'', \<lparr>Name = ''habit1'', CurrentStreak = 2, LastDone = utc 1707138000\<rparr>)]"
  have bound: "path ?s \<noteq> []"
    by simp
  have ok: "fst (Save (setCalls ?calls ?s) emptyDisk) = None"
    by (simp add: Save_def Set_def os_Create_def gob_Encode_def emptyDisk_def)
  then have saved: "Save (setCalls ?calls ?s) emptyDisk = (None, snd (Save (setCalls ?calls ?s) emptyDisk))"
    by (simp add: prod_eq_iff)
  have m: "All (setCalls ?calls ?s) = [''habit1'' \<mapsto> \<lparr>Name = ''habit1'', CurrentStreak = 2, LastDone = utc 1707138000\<rparr>,
              ''habit2'' \<mapsto> \<lparr>Name = ''habit2'', CurrentStreak = 3, LastDone = utc 1707224400\<rparr>]"
    by (auto simp: All_def Set_def fun_eq_iff)
  from Save_OpenStore_roundtrip [OF bound saved] bound ok m
  show ?thesis by (simp split: sum.splits)
qed

text \<open>
  C9. OpenStore of the empty path returns an empty store and no error, whatever the disk
  holds. The store works in memory; every Save of a store with that path fails at
  \<open>os.Create\<close> and leaves the disk as it was, and so does every Track on it.
\<close>

theorem OpenStore_empty_path:
  "OpenStore fs [] = Inr \<lparr>path = [], data = Map.empty\<rparr>
   \<and> Get (Set \<lparr>path = [], data = m\<rparr> key hb) key = (hb, True)
   \<and> Save \<lparr>path = [], data = m\<rparr> fs = (Some (CreateError [] ErrNotExist), fs)
   \<and> disk (Track now \<lparr>outputw = w, store = \<lparr>path = [], data = m\<rparr>\<rparr> fs hbtName) = fs"
  by (simp add: OpenStore_def os_Open_def Get_def Set_def Save_def os_Create_def Track_def Let_def
      split: option.split prod.split)

theorem OpenStore_empty_path_witness:
  "OpenStore lockedDisk [] = Inr \<lparr>path = [], data = Map.empty\<rparr>
   \<and> Get (Set \<lparr>path = [], data = Map.empty\<rparr> ''habit1''
         \<lparr>Name = ''habit1'', CurrentStreak = 0, LastDone = zeroTime\<rparr>) ''habit1''
       = (\<lparr>Name = ''habit1'', CurrentStreak = 0, LastDone = zeroTime\<rparr>, True)
   \<and> Save \<lparr>path = [], data = Map.empty\<rparr> lockedDisk = (Some (CreateError [] ErrNotExist), lockedDisk)
   \<and> disk (Track (utc 1707224400) \<lparr>outputw = Stdout, store = \<lparr>path = [], data = Map.empty\<rparr>\<rparr>
        lockedDisk ''programming'') = lockedDisk"
  using OpenStore_empty_path [of lockedDisk Map.empty "''habit1''"
      "\<lparr>Name = ''habit1'', CurrentStreak = 0, LastDone = zeroTime\<rparr>" "utc 1707224400" Stdout
      "''programming''"]
  by simp

section \<open>A habit seen for the first time\<close>

text \<open>
  C5, as amended. For a name with no record, Track puts into the store the record with
  that name, CurrentStreak 1 and LastDone now. When it returns nil, the mapping is on disk
  (OpenStore of the path reads the store back) and the new-habit message is written. When
  the save fails, Track returns the error of Save and writes nothing; the record stays
  in memory.
\<close>

theorem Track_new_habit:
  assumes "data (store t) hbtName = None"
  shows "tracker (Track now t fs hbtName)
           = t\<lparr>store := Set (store t) hbtName \<lparr>Name = hbtName, CurrentStreak = 1, LastDone = now\<rparr>\<rparr>
         \<and> data (store (tracker (Track now t fs hbtName))) hbtName
             = Some \<lparr>Name = hbtName, CurrentStreak = 1, LastDone = now\<rparr>
         \<and> (if failure (Track now t fs hbtName) = None
             then OpenStore (disk (Track now t fs hbtName)) (path (store t))
                    = Inr (store (tracker (Track now t fs hbtName)))
                  \<and> written (Track now t fs hbtName) = [newHabitMsg hbtName]
             else failure (Track now t fs hbtName)
                    = fst (Save (Set (store t) hbtName
                        \<lparr>Name = hbtName, CurrentStreak = 1, LastDone = now\<rparr>) fs)
                  \<and> written (Track now t fs hbtName) = [])"
proof -
  let ?s1 = "Set (store t) hbtName \<lparr>Name = hbtName, CurrentStreak = 1, LastDone = now\<rparr>"
  obtain r fs1 where sv: "Save ?s1 fs = (r, fs1)"
    by (cases "Save ?s1 fs")
  have p: "path ?s1 = path (store t)"
    by (simp add: Set_def)
  show ?thesis
  proof (cases r)
    case None
    with sv Save_then_OpenStore [of ?s1 fs fs1] p assms show ?thesis
      by (simp add: Track_def Let_def Set_def)
  next
    case (Some e)
    with sv assms show ?thesis
      by (simp add: Track_def Let_def Set_def)
  qed
qed

text \<open>Recording "programming" for the first time on a disk without a store file.\<close>

theorem Track_new_habit_witness:
  "data (store \<lparr>outputw = Stdout, store = \<lparr>path = ''habit.store'', data = Map.empty\<rparr>\<rparr>) ''programming'' = None
   \<and> failure (Track (utc 1707224400) \<lparr>outputw = Stdout, store = \<lparr>path = ''habit.store'', data = Map.empty\<rparr>\<rparr>
         emptyDisk ''programming'') = None
   \<and> data (store (tracker (Track (utc 1707224400)
         \<lparr>outputw = Stdout, store = \<lparr>path = ''habit.store'', data = Map.empty\<rparr>\<rparr>
         emptyDisk ''programming''))) ''programming''
       = Some \<lparr>Name = ''programming'', CurrentStreak = 1, LastDone = utc 1707224400\<rparr>
   \<and> OpenStore (disk (Track (utc 1707224400)
         \<lparr>outputw = Stdout, store = \<lparr>path = ''habit.store'', data = Map.empty\<rparr>\<rparr>
         emptyDisk ''programming'')) ''habit.store''
       = Inr \<lparr>path = ''habit.store'', data = [''programming'' \<mapsto>
               \<lparr>Name = ''programming'', CurrentStreak = 1, LastDone = utc 1707224400\<rparr>]\<rparr>
   \<and> written (Track (utc 1707224400)
         \<lparr>outputw = Stdout, store = \<lparr>path = ''habit.store'', data = Map.empty\<rparr>\<rparr>
         emptyDisk ''programming'')
       = [''Congratulations on starting your new habit '' @ sq @ ''programming'' @ sq
          @ ''! Don't forget to do it again.'' @ nl]"
proof -
  let ?t = "\<lparr>outputw = Stdout, store = \<lparr>path = ''habit.store'', data = Map.empty\<rparr>\<rparr>"
  have absent: "data (store ?t) ''programming'' = None"
    by simp
  have ok: "failure (Track (utc 1707224400) ?t emptyDisk ''programming'') = None"
    by (simp add: Track_def Save_def Set_def os_Create_def gob_Encode_def emptyDisk_def)
  from Track_new_habit [OF absent, of "utc 1707224400" emptyDisk] absent ok
  show ?thesis by (simp add: newHabitMsg_def Set_def)
qed

text \<open>
  On the in-memory store the record is created, but the save fails: Track returns the
  error, writes no message, and no file exists afterwards.
\<close>

theorem Track_new_habit_unsaved_counterexample:
  "data (store memTracker) ''programming'' = None
   \<and> failure (Track (utc 1707224400) memTracker emptyDisk ''programming'')
       = Some (CreateError [] ErrNotExist)
   \<and> written (Track (utc 1707224400) memTracker emptyDisk ''programming'') = []
   \<and> files (disk (Track (utc 1707224400) memTracker emptyDisk ''programming'')) = Map.empty"
  by (simp add: Track_def memTracker_def emptyDisk_def Save_def Set_def os_Create_def)

section \<open>The streak invariant\<close>

text \<open>
  One Track call, whatever it returns, on streaks between 1 and a bound below the
  largest int keeps them between 1 and the bound plus 1.
\<close>

lemma Track_streak_bounds:
  assumes inv: "\<And>k h. data (store t) k = Some h \<Longrightarrow> 1 \<le> CurrentStreak h \<and> CurrentStreak h \<le> b"
    and b: "0 \<le> b" "b < 2 ^ 63 - 1"
    and got: "data (store (tracker (Track now t fs hbtName))) k = Some h"
  shows "1 \<le> CurrentStreak h \<and> CurrentStreak h \<le> b + 1"
proof (cases "data (store t) hbtName")
  case None
  with got have "h = \<lparr>Name = hbtName, CurrentStreak = 1, LastDone = now\<rparr> \<or> data (store t) k = Some h"
    by (auto simp: Track_def Let_def Set_def split: prod.splits option.splits if_splits)
  with inv b show ?thesis
    by fastforce
next
  case (Some hbt)
  with inv have s: "1 \<le> CurrentStreak hbt" "CurrentStreak hbt \<le> b"
    by blast+
  with b have "wrapInt (CurrentStreak hbt + 1) = CurrentStreak hbt + 1"
    by (intro wrapInt_id) simp_all
  moreover from Some got have "CurrentStreak h = CurrentStreak hbt \<or> CurrentStreak h = 1
      \<or> CurrentStreak h = wrapInt (CurrentStreak hbt + 1) \<or> data (store t) k = Some h"
    by (auto simp: Track_def Let_def split: prod.splits if_splits)
  ultimately show ?thesis
    using s b inv by fastforce
qed

lemma reachableIn_streak_bounds:
  assumes "reachableIn n t" and "int n \<le> 2 ^ 63 - 1"
    and "data (store t) k = Some h"
  shows "1 \<le> CurrentStreak h \<and> CurrentStreak h \<le> int n"
  using assms
proof (induction arbitrary: k h rule: reachableIn.induct)
  case (reachableIn_empty t)
  then show ?case by simp
next
  case (reachableIn_Track n t now fs name)
  from reachableIn_Track.prems(1) have small: "int n < 2 ^ 63 - 1"
    by simp
  have "1 \<le> CurrentStreak h \<and> CurrentStreak h \<le> int n + 1"
  proof (rule Track_streak_bounds)
    show "1 \<le> CurrentStreak h' \<and> CurrentStreak h' \<le> int n" if "data (store t) k' = Some h'" for k' h'
      using reachableIn_Track.IH [OF _ that] small by simp
    show "0 \<le> int n"
      by simp
    show "int n < 2 ^ 63 - 1"
      by (rule small)
    show "data (store (tracker (Track now t fs name))) k = Some h"
      by (rule reachableIn_Track.prems(2))
  qed
  then show ?case
    by simp
qed

text \<open>
  C7, as amended. In every tracker reached from an empty store by at most \<open>2 ^ 63 - 1\<close>
  Track calls that returned nil, every habit of the store has CurrentStreak at least 1.
\<close>

theorem reachableIn_streak_positive:
  assumes "reachableIn n t"
    and "int n \<le> 2 ^ 63 - 1"
    and "data (store t) hbtName = Some hbt"
  shows "1 \<le> CurrentStreak hbt"
  using reachableIn_streak_bounds [OF assms] by simp

text \<open>A new habit, extended on the next calendar day: the streak is 2.\<close>

theorem reachableIn_streak_positive_witness:
  "reachableIn 2 (tracker (Track (utc 1707224340)
       (tracker (Track (utc 1707138000) freshTracker emptyDisk ''programming''))
       (disk (Track (utc 1707138000) freshTracker emptyDisk ''programming'')) ''programming''))
   \<and> int 2 \<le> 2 ^ 63 - 1
   \<and> data (store (tracker (Track (utc 1707224340)
       (tracker (Track (utc 1707138000) freshTracker emptyDisk ''programming''))
       (disk (Track (utc 1707138000) freshTracker emptyDisk ''programming'')) ''programming'')))
       ''programming''
     = Some \<lparr>Name = ''programming'', CurrentStreak = 2, LastDone = utc 1707224340\<rparr>
   \<and> 1 \<le> CurrentStreak \<lparr>Name = ''programming'', CurrentStreak = 2, LastDone = utc 1707224340\<rparr>"
proof -
  let ?r1 = "Track (utc 1707138000) freshTracker emptyDisk ''programming''"
  let ?r2 = "Track (utc 1707224340) (tracker ?r1) (disk ?r1) ''programming''"
  have t1: "tracker ?r1 = \<lparr>outputw = Stdout, store = \<lparr>path = ''habit.store'', data =
      [''programming'' \<mapsto> \<lparr>Name = ''programming'', CurrentStreak = 1, LastDone = utc 1707138000\<rparr>]\<rparr>\<rparr>"
    and ok1: "failure ?r1 = None"
    and d1: "disk ?r1 = \<lparr>files = [''habit.store'' \<mapsto> \<lparr>content = Gob
      [''programming'' \<mapsto> \<lparr>Name = ''programming'', CurrentStreak = 1, LastDone = utc 1707138000\<rparr>],
        readable = True, writable = True\<rparr>], createErr = Map.empty, writeFails = False\<rparr>"
    by (simp_all add: Track_def freshTracker_def Save_def Set_def os_Create_def gob_Encode_def
        emptyDisk_def)
  have later: "\<not> Before (utc 1707224340) (utc 1707138000)"
    by (simp add: Before_def utc_def)
  have other: "\<not> sameDate (utc 1707224340) (utc 1707138000)"
    by code_simp
  have days: "daysSince (utc 1707224340) (utc 1707138000) = 0"
    by code_simp
  have two: "wrapInt 2 = 2"
    by (simp add: wrapInt_def)
  have ok2: "failure ?r2 = None"
    and t2: "data (store (tracker ?r2)) ''programming''
      = Some \<lparr>Name = ''programming'', CurrentStreak = 2, LastDone = utc 1707224340\<rparr>"
    unfolding t1 d1 using later other days two
    by (simp_all add: Track_def Save_def os_Create_def gob_Encode_def)
  have "reachableIn 0 freshTracker"
    by (rule reachableIn_empty) (simp add: freshTracker_def)
  then have "reachableIn (Suc 0) (tracker ?r1)"
    using ok1 by (rule reachableIn_Track)
  then have "reachableIn (Suc (Suc 0)) (tracker ?r2)"
    using ok2 by (rule reachableIn_Track)
  then have r: "reachableIn 2 (tracker ?r2)"
    by (simp add: numeral_2_eq_2)
  have n: "int 2 \<le> 2 ^ 63 - 1"
    by simp
  from reachableIn_streak_positive [OF r n t2] r n t2
  show ?thesis by simp
qed

text \<open>The two dates of the flipping clock.\<close>

lemma flipTime_dates:
  "Date \<lparr>unixNano = 0, zoneOffset = 0\<rparr> = (1970, 1, 1)"
  "Date \<lparr>unixNano = 0, zoneOffset = - 1\<rparr> = (1969, 12, 31)"
  by code_simp+

lemma flipTime_step:
  "\<not> Before (flipTime (Suc n)) (flipTime n)"
  "\<not> sameDate (flipTime (Suc n)) (flipTime n)"
  "daysSince (flipTime (Suc n)) (flipTime n) = 0"
proof -
  show b: "\<not> Before (flipTime (Suc n)) (flipTime n)"
    by (simp add: Before_def flipTime_def)
  show "\<not> sameDate (flipTime (Suc n)) (flipTime n)"
    by (simp add: sameDate_def flipTime_def flipTime_dates)
  have "daysFloor (flipTime (Suc n)) (flipTime n) = 0"
    by (simp add: daysFloor_def flipTime_def)
  with b show "daysSince (flipTime (Suc n)) (flipTime n) = 0"
    by (rule daysSince_floor_zero)
qed

text \<open>Every reading of the flipping clock extends the streak and is saved.\<close>

lemma Track_flipTracker:
  "tracker (Track (flipTime (Suc n)) (flipTracker n) emptyDisk ''h'') = flipTracker (Suc n)"
  "failure (Track (flipTime (Suc n)) (flipTracker n) emptyDisk ''h'') = None"
proof -
  have "1 + int n + 1 = 1 + int (Suc n)"
    by simp
  with wrapInt_Suc [of "1 + int n"]
  have w: "wrapInt (wrapInt (1 + int n) + 1) = wrapInt (1 + int (Suc n))"
    by (simp only:)
  have l: "LastDone \<lparr>Name = ''h'', CurrentStreak = wrapInt (1 + int n), LastDone = flipTime n\<rparr>
      = flipTime n"
    by simp
  show "tracker (Track (flipTime (Suc n)) (flipTracker n) emptyDisk ''h'') = flipTracker (Suc n)"
    using flipTime_step [of n] w
    by (simp add: Track_def flipTracker_def Let_def del: of_nat_Suc split: prod.split)
  show "failure (Track (flipTime (Suc n)) (flipTracker n) emptyDisk ''h'') = None"
    using flipTime_step [of n]
    by (simp add: Track_def flipTracker_def Let_def Save_def os_Create_def gob_Encode_def
        emptyDisk_def del: of_nat_Suc)
qed

lemma reachableIn_flipTracker: "reachableIn (Suc n) (flipTracker n)"
proof (induction n)
  case 0
  have "reachableIn 0 freshTracker"
    by (rule reachableIn_empty) (simp add: freshTracker_def)
  moreover have "failure (Track (flipTime 0) freshTracker emptyDisk ''h'') = None"
    by (simp add: Track_def freshTracker_def Save_def Set_def os_Create_def gob_Encode_def
        emptyDisk_def)
  ultimately have "reachableIn (Suc 0) (tracker (Track (flipTime 0) freshTracker emptyDisk ''h''))"
    by (rule reachableIn_Track)
  moreover have "tracker (Track (flipTime 0) freshTracker emptyDisk ''h'') = flipTracker 0"
    by (simp add: Track_def freshTracker_def flipTracker_def Save_def Set_def os_Create_def
        gob_Encode_def emptyDisk_def wrapInt_def)
  ultimately show ?case
    by simp
next
  case (Suc n)
  from Suc Track_flipTracker(2) [of n]
  have "reachableIn (Suc (Suc n))
      (tracker (Track (flipTime (Suc n)) (flipTracker n) emptyDisk ''h''))"
    by (rule reachableIn_Track)
  then show ?case
    by (simp only: Track_flipTracker(1))
qed

text \<open>
  After \<open>2 ^ 63\<close> such recordings, all of which returned nil, the streak has wrapped
  around to \<open>- 2 ^ 63\<close>.
\<close>

theorem reachableIn_streak_wrap_counterexample:
  "reachableIn 9223372036854775808 (flipTracker 9223372036854775807)
   \<and> data (store (flipTracker 9223372036854775807)) ''h''
       = Some \<lparr>Name = ''h'', CurrentStreak = - 9223372036854775808,
               LastDone = flipTime 9223372036854775807\<rparr>
   \<and> \<not> 1 \<le> CurrentStreak (the (data (store (flipTracker 9223372036854775807)) ''h''))"
proof -
  have "reachableIn (Suc 9223372036854775807) (flipTracker 9223372036854775807)"
    by (rule reachableIn_flipTracker)
  moreover have "Suc 9223372036854775807 = 9223372036854775808"
    by simp
  ultimately have r: "reachableIn 9223372036854775808 (flipTracker 9223372036854775807)"
    by (simp only:)
  have "wrapInt (1 + int 9223372036854775807) = - 9223372036854775808"
    by (simp add: wrapInt_def)
  then have d: "data (store (flipTracker 9223372036854775807)) ''h''
       = Some \<lparr>Name = ''h'', CurrentStreak = - 9223372036854775808,
               LastDone = flipTime 9223372036854775807\<rparr>"
    by (simp add: flipTracker_def)
  from r d show ?thesis
    by simp
qed

section \<open>The summary\<close>

text \<open>The branch of the loop in terms of the code's count.\<close>

lemma summaryWrite_code:
  "summaryWrite now h =
     (if 0 < daysSince now (LastDone h)
      then inactiveMsg (daysSince now (LastDone h))
             (if daysSince now (LastDone h) = 1 then ''day'' else ''days'') (Name h)
      else streakMsg (CurrentStreak h) (Name h))"
  by (simp add: summaryWrite_def daysSince_pos_floor)

lemma summaryLoop_map:
  "set ks \<subseteq> dom m \<Longrightarrow> summaryLoop now m ks = map (\<lambda>k. summaryWrite now (the (m k))) ks"
  by (induction ks) (auto simp: summaryWrite_code Let_def)

text \<open>
  C8, as amended. Whatever order \<open>range\<close> visits the keys in, PrintSummary writes one
  message per tracked habit: the inactive message when the whole days since LastDone are
  more than 0, the current-streak message with CurrentStreak otherwise. The count in the
  inactive message is the one the code computes in float64; when fewer than 170 days
  have passed for every habit, the messages are those of the specification, with the
  whole days. With no habit tracked it writes the no-habits message and nothing else.
\<close>

theorem PrintSummary_events:
  assumes "distinct ks"
    and "set ks = dom (data (store t))"
  shows "if dom (data (store t)) = {}
         then PrintSummary now ks t = [noHabitsMsg]
         else PrintSummary now ks t = map (\<lambda>k. summaryWrite now (the (data (store t) k))) ks
              \<and> mset (PrintSummary now ks t)
                  = {#summaryWrite now (the (data (store t) k)). k \<in># mset_set (dom (data (store t)))#}
              \<and> ((\<forall>k \<in> dom (data (store t)).
                     unixNano now - unixNano (LastDone (the (data (store t) k))) < 170 * (24 * Hour))
                   \<longrightarrow> PrintSummary now ks t
                         = map (\<lambda>k. summaryEvent now (the (data (store t) k))) ks)"
proof -
  from assms have m: "mset_set (dom (data (store t))) = mset ks"
    by (metis mset_set_set)
  have w: "PrintSummary now ks t = map (\<lambda>k. summaryWrite now (the (data (store t) k))) ks"
    if "dom (data (store t)) \<noteq> {}"
    using that assms by (simp add: PrintSummary_def summaryLoop_map)
  have "map (\<lambda>k. summaryWrite now (the (data (store t) k))) ks
      = map (\<lambda>k. summaryEvent now (the (data (store t) k))) ks"
    if "\<forall>k \<in> dom (data (store t)).
          unixNano now - unixNano (LastDone (the (data (store t) k))) < 170 * (24 * Hour)"
    using that assms(2) by (simp add: summaryWrite_eq_summaryEvent)
  with w m show ?thesis
    by (simp add: PrintSummary_def)
qed

text \<open>
  At 2024-02-06T13:00:00Z: one habit done four hours ago, one a day and 30 minutes ago,
  one three days ago; and the empty store.
\<close>

theorem PrintSummary_events_witness:
  "distinct [''reading'', ''programming'', ''exercising'']
   \<and> set [''reading'', ''programming'', ''exercising''] = dom (data (store summaryTracker))
   \<and> unixNano (utc 1707224400) - unixNano (utc 1707210000) < 170 * (24 * Hour)
   \<and> unixNano (utc 1707224400) - unixNano (utc 1707136200) < 170 * (24 * Hour)
   \<and> unixNano (utc 1707224400) - unixNano (utc 1706965200) < 170 * (24 * Hour)
   \<and> PrintSummary (utc 1707224400) [''reading'', ''programming'', ''exercising''] summaryTracker
       = [''You are currently on a 6-day streak for '' @ sq @ ''reading'' @ sq @ ''. Keep it going!'' @ nl,
          ''It's been 1 day since you did '' @ sq @ ''programming'' @ sq
            @ ''. Stay positive and get back on it!'' @ nl,
          ''It's been 3 days since you did '' @ sq @ ''exercising'' @ sq
            @ ''. Stay positive and get back on it!'' @ nl]
   \<and> PrintSummary (utc 1707224400) [''reading'', ''programming'', ''exercising''] summaryTracker
       = map (\<lambda>k. summaryEvent (utc 1707224400) (the (data (store summaryTracker) k)))
           [''reading'', ''programming'', ''exercising'']
   \<and> distinct ([] :: string list)
   \<and> set [] = dom (data (store freshTracker))
   \<and> PrintSummary (utc 1707224400) [] freshTracker = [noHabitsMsg]"
proof -
  let ?ks = "[''reading'', ''programming'', ''exercising'']"
  have d: "distinct ?ks"
    by simp
  have s: "set ?ks = dom (data (store summaryTracker))"
    by (auto simp: summaryTracker_def)
  have ne: "dom (data (store summaryTracker)) \<noteq> {}"
    by (simp add: summaryTracker_def)
  have v: "the (data (store summaryTracker) ''reading'')
       = \<lparr>Name = ''reading'', CurrentStreak = 6, LastDone = utc 1707210000\<rparr>"
    "the (data (store summaryTracker) ''programming'')
       = \<lparr>Name = ''programming'', CurrentStreak = 1, LastDone = utc 1707136200\<rparr>"
    "the (data (store summaryTracker) ''exercising'')
       = \<lparr>Name = ''exercising'', CurrentStreak = 4, LastDone = utc 1706965200\<rparr>"
    by (simp_all add: summaryTracker_def)
  have recent: "unixNano (utc 1707224400) - unixNano (utc 1707210000) < 170 * (24 * Hour)"
    "unixNano (utc 1707224400) - unixNano (utc 1707136200) < 170 * (24 * Hour)"
    "unixNano (utc 1707224400) - unixNano (utc 1706965200) < 170 * (24 * Hour)"
    by (simp_all add: utc_def Hour_def)
  have all: "\<forall>k \<in> dom (data (store summaryTracker)).
      unixNano (utc 1707224400) - unixNano (LastDone (the (data (store summaryTracker) k)))
        < 170 * (24 * Hour)"
    unfolding s [symmetric] using recent by (simp add: v)
  have e1: "summaryEvent (utc 1707224400)
       \<lparr>Name = ''reading'', CurrentStreak = 6, LastDone = utc 1707210000\<rparr>
     = ''You are currently on a 6-day streak for '' @ sq @ ''reading'' @ sq @ ''. Keep it going!'' @ nl"
    by code_simp
  have e2: "summaryEvent (utc 1707224400)
       \<lparr>Name = ''programming'', CurrentStreak = 1, LastDone = utc 1707136200\<rparr>
     = ''It's been 1 day since you did '' @ sq @ ''programming'' @ sq
            @ ''. Stay positive and get back on it!'' @ nl"
    by code_simp
  have e3: "summaryEvent (utc 1707224400)
       \<lparr>Name = ''exercising'', CurrentStreak = 4, LastDone = utc 1706965200\<rparr>
     = ''It's been 3 days since you did '' @ sq @ ''exercising'' @ sq
            @ ''. Stay positive and get back on it!'' @ nl"
    by code_simp
  have d0: "distinct ([] :: string list)"
    by simp
  have s0: "set [] = dom (data (store freshTracker))"
    by (simp add: freshTracker_def)
  have e0: "dom (data (store freshTracker)) = {}"
    by (simp add: freshTracker_def)
  note c = PrintSummary_events [OF d s, of "utc 1707224400", unfolded if_not_P [OF ne]]
  have full: "PrintSummary (utc 1707224400) ?ks summaryTracker
       = map (\<lambda>k. summaryEvent (utc 1707224400) (the (data (store summaryTracker) k))) ?ks"
    using c all by blast
  from PrintSummary_events [OF d0 s0, of "utc 1707224400"]
  have none: "PrintSummary (utc 1707224400) [] freshTracker = [noHabitsMsg]"
    unfolding e0 by simp
  from full none d s d0 s0 recent show ?thesis
    by (simp add: v e1 e2 e3)
qed

text \<open>
  One habit last done at the epoch, summarised one nanosecond short of 171 days later:
  the specification's event says 170 days, the message written says 171.
\<close>

theorem PrintSummary_rounded_counterexample:
  "distinct [''h'']
   \<and> set [''h''] = dom (data (store (trackerWith ''test.store''
         \<lparr>Name = ''h'', CurrentStreak = 5, LastDone = utc 0\<rparr>)))
   \<and> daysFloor almost171 (utc 0) = 170
   \<and> summaryEvent almost171 \<lparr>Name = ''h'', CurrentStreak = 5, LastDone = utc 0\<rparr>
       = ''It's been 170 days since you did '' @ sq @ ''h'' @ sq
           @ ''. Stay positive and get back on it!'' @ nl
   \<and> PrintSummary almost171 [''h''] (trackerWith ''test.store''
         \<lparr>Name = ''h'', CurrentStreak = 5, LastDone = utc 0\<rparr>)
       = [''It's been 171 days since you did '' @ sq @ ''h'' @ sq
           @ ''. Stay positive and get back on it!'' @ nl]"
proof -
  have whole: "daysFloor almost171 (utc 0) = 170"
    by (simp add: daysFloor_def utc_def almost171_def Hour_def)
  have days: "daysSince almost171 (utc 0) = 171"
    by code_simp
  have e: "summaryEvent almost171 \<lparr>Name = ''h'', CurrentStreak = 5, LastDone = utc 0\<rparr>
       = ''It's been 170 days since you did '' @ sq @ ''h'' @ sq
           @ ''. Stay positive and get back on it!'' @ nl"
    by (simp add: summaryEvent_def whole inactiveMsg_def showInt_def showNat.simps)
  have p: "PrintSummary almost171 [''h''] (trackerWith ''test.store''
         \<lparr>Name = ''h'', CurrentStreak = 5, LastDone = utc 0\<rparr>)
       = [''It's been 171 days since you did '' @ sq @ ''h'' @ sq
           @ ''. Stay positive and get back on it!'' @ nl]"
    by (simp add: PrintSummary_def trackerWith_def days Let_def inactiveMsg_def showInt_def
        showNat.simps)
  from whole e p show ?thesis
    by (simp add: trackerWith_def)
qed

section \<open>Constructing a tracker\<close>

text \<open>
  C10. NewTracker opens \<open>habit.store\<close> before it looks at its options: when that fails,
  NewTracker returns the error of OpenStore for every list of options, also one that
  supplies a store or holds an option that would fail itself.
\<close>

theorem NewTracker_open_error:
  assumes "OpenStore fs ''habit.store'' = Inl e"
  shows "NewTracker fs opts = Inl e"
  using assms by (simp add: NewTracker_def)

text \<open>
  An unreadable \<open>habit.store\<close>, a store supplied with WithStore and a nil writer: the
  error is the permission error, not the one the second option would give.
\<close>

theorem NewTracker_open_error_witness:
  "OpenStore lockedDisk ''habit.store'' = Inl (OpenError ''habit.store'' ErrPermission)
   \<and> NewTracker lockedDisk [WithStore (Some \<lparr>path = [], data = Map.empty\<rparr>), WithOutput None]
       = Inl (OpenError ''habit.store'' ErrPermission)
   \<and> applyOpts [WithStore (Some \<lparr>path = [], data = Map.empty\<rparr>), WithOutput None]
        \<lparr>outputw = Stdout, store = \<lparr>path = ''habit.store'', data = Map.empty\<rparr>\<rparr> = Inl NilOutput"
proof -
  have locked: "OpenStore lockedDisk ''habit.store'' = Inl (OpenError ''habit.store'' ErrPermission)"
    by (simp add: OpenStore_def os_Open_def lockedDisk_def)
  from NewTracker_open_error [OF locked] locked
  show ?thesis by simp
qed

end
